theory Spec2Isabelle
  imports Main
begin

section \<open>Annotation store: metadata on method functions\<close>

text \<open>
  The decorators of \<^verbatim>\<open>ClassTestUI\<close> write their metadata as hidden properties
  (\<^verbatim>\<open>__testdeck_name\<close>, \<^verbatim>\<open>__testdeck_parametersSymbol\<close>, ...) of the method's function
  object. A function object is modelled by a record holding its identity, its
  \<^verbatim>\<open>length\<close> (the declared number of positional parameters) and one optional field per
  hidden property; \<open>None\<close> is an absent property. The type parameter \<open>'p\<close> is the
  type of the values handed to \<^verbatim>\<open>@params\<close> (\<^verbatim>\<open>any\<close> in the source).
\<close>

datatype execution = Pending | Only | Skip

record 'p test_params =
  tp_execution :: "execution option"
  tp_name :: "string option"
  tp_params :: 'p

record 'p func =
  fn_id :: nat
  fn_length :: nat
  nameSymbol :: "string option"
  parametersSymbol :: "'p test_params list option"
  nameForParametersSymbol :: "('p \<Rightarrow> string) option"
  slowSymbol :: "int option"
  timeoutSymbol :: "int option"
  retriesSymbol :: "int option"
  executionSymbol :: "execution option"

text \<open>The settings object built by \<^verbatim>\<open>getSettings\<close>; a field is \<open>None\<close> when the key is absent.\<close>

record settings =
  slow :: "int option"
  timeout :: "int option"
  retries :: "int option"
  execution :: "execution option"

text \<open>
  \<^verbatim>\<open>getSettings(obj)\<close>: starts from \<^verbatim>\<open>undefined\<close> and creates the object when the first of
  the four keys is found in \<^verbatim>\<open>obj\<close>; every key found is copied.
\<close>

definition getSettings :: "'p func \<Rightarrow> settings option" where
  "getSettings obj =
     (if slowSymbol obj = None \<and> timeoutSymbol obj = None \<and> retriesSymbol obj = None
         \<and> executionSymbol obj = None
      then None
      else Some \<lparr>slow = slowSymbol obj, timeout = timeoutSymbol obj,
                 retries = retriesSymbol obj, execution = executionSymbol obj\<rparr>)"

text \<open>JavaScript truthiness of an optional string: \<^verbatim>\<open>undefined\<close> and \<^verbatim>\<open>""\<close> are falsy.\<close>

fun truthy :: "string option \<Rightarrow> bool" where
  "truthy None = False"
| "truthy (Some s) = (s \<noteq> [])"

text \<open>A template literal prints \<^verbatim>\<open>undefined\<close> for a missing value.\<close>

fun template_string :: "string option \<Rightarrow> string" where
  "template_string None = ''undefined''"
| "template_string (Some s) = s"

text \<open>The decimal numeral a template literal prints for an array index.\<close>

fun string_of_nat :: "nat \<Rightarrow> string" where
  "string_of_nat n =
     (if n < 10 then [''0123456789'' ! n]
      else string_of_nat (n div 10) @ [''0123456789'' ! (n mod 10)])"

declare string_of_nat.simps [simp del]

section \<open>Decorator factories\<close>

text \<open>
  A method decorator is called with the prototype, the property key and the descriptor,
  and mutates \<^verbatim>\<open>target[propertyKey]\<close>: it is modelled by the update of that function
  object, given the key.
\<close>

type_synonym 'p method_decorator = "string \<Rightarrow> 'p func \<Rightarrow> 'p func"

text \<open>\<^verbatim>\<open>makeTestFunction(execution)\<close>: the three overloads picked by \<^verbatim>\<open>testOverload\<close>.\<close>

definition set_execution :: "execution option \<Rightarrow> 'p func \<Rightarrow> 'p func" where
  "set_execution e f = (case e of None \<Rightarrow> f | Some x \<Rightarrow> f\<lparr>executionSymbol := Some x\<rparr>)"

definition testProperty :: "execution option \<Rightarrow> 'p method_decorator" where
  "testProperty e propertyKey f = set_execution e (f\<lparr>nameSymbol := Some propertyKey\<rparr>)"

definition testDecorator ::
  "execution option \<Rightarrow> 'p method_decorator list \<Rightarrow> 'p method_decorator" where
  "testDecorator e decorators propertyKey f =
     set_execution e
       (fold (\<lambda>decorator g. decorator propertyKey g) decorators
          (f\<lparr>nameSymbol := Some propertyKey\<rparr>))"

definition testDecoratorNamed ::
  "execution option \<Rightarrow> string \<Rightarrow> 'p method_decorator list \<Rightarrow> 'p method_decorator" where
  "testDecoratorNamed e name decorators propertyKey f =
     set_execution e
       (fold (\<lambda>decorator g. decorator propertyKey g) decorators
          (f\<lparr>nameSymbol := Some name\<rparr>))"

text \<open>
  \<^verbatim>\<open>makeParamsFunction(execution)(params, name)\<close>: sets the name to the property key,
  creates the parameter list when it is missing, and pushes the new set at its end.
\<close>

definition makeParamsFunction ::
  "execution option \<Rightarrow> 'p \<Rightarrow> string option \<Rightarrow> 'p method_decorator" where
  "makeParamsFunction e params name propertyKey f =
     f\<lparr>nameSymbol := Some propertyKey,
       parametersSymbol :=
         Some ((case parametersSymbol f of None \<Rightarrow> [] | Some ps \<Rightarrow> ps)
               @ [\<lparr>tp_execution = e, tp_name = name, tp_params = params\<rparr>])\<rparr>"

definition makeParamsNameFunction :: "('p \<Rightarrow> string) \<Rightarrow> 'p method_decorator" where
  "makeParamsNameFunction nameForParameters propertyKey f =
     f\<lparr>nameForParametersSymbol := Some nameForParameters\<rparr>"

text \<open>
  \<^verbatim>\<open>createExecutionOption(key)(value)\<close> applied to a method (three arguments):
  \<^verbatim>\<open>proto[prop][key] = value\<close>, for the keys of \<^verbatim>\<open>@slow\<close>, \<^verbatim>\<open>@timeout\<close> and \<^verbatim>\<open>@retries\<close>.
\<close>

datatype option_key = SlowKey | TimeoutKey | RetriesKey

fun createExecutionOption :: "option_key \<Rightarrow> int \<Rightarrow> 'p method_decorator" where
  "createExecutionOption SlowKey v propertyKey f = f\<lparr>slowSymbol := Some v\<rparr>"
| "createExecutionOption TimeoutKey v propertyKey f = f\<lparr>timeoutSymbol := Some v\<rparr>"
| "createExecutionOption RetriesKey v propertyKey f = f\<lparr>retriesSymbol := Some v\<rparr>"

text \<open>
  \<^verbatim>\<open>createExecutionModifier(execution)\<close> returns the function \<^verbatim>\<open>decorator\<close>.
  Used bare on a method it is called with the prototype, the key and the descriptor,
  and sets the execution mode of \<^verbatim>\<open>target[propertyKey]\<close>
  (\<open>modifier_on_method\<close>). Called with a condition (a boolean, or nothing:
  \<open>None\<close> is \<^verbatim>\<open>undefined\<close>) it returns itself when the condition is truthy and
  the empty function otherwise (\<open>modifier_on_condition\<close>); what it returns is then
  applied to the method. Called with a class alone it sets the execution mode of the
  class, which a test class of this theory does not record.
\<close>

definition modifier_on_method :: "execution \<Rightarrow> 'p method_decorator" where
  "modifier_on_method e propertyKey f = f\<lparr>executionSymbol := Some e\<rparr>"

definition modifier_on_condition :: "execution \<Rightarrow> bool option \<Rightarrow> 'p method_decorator" where
  "modifier_on_condition e target =
     (if target = Some True then modifier_on_method e else (\<lambda>propertyKey f. f))"

text \<open>
  Several decorators on one method, listed as they stand in the source from top to
  bottom: TypeScript evaluates them top-down and applies them bottom-up, the one next
  to the method first.
\<close>

definition decorate :: "'p method_decorator list \<Rightarrow> string \<Rightarrow> 'p func \<Rightarrow> 'p func" where
  "decorate decorators propertyKey f = foldr (\<lambda>d g. d propertyKey g) decorators f"

text \<open>A method as the class body declares it: no metadata yet.\<close>

definition plain_method :: "nat \<Rightarrow> nat \<Rightarrow> 'p func" where
  "plain_method i n =
     \<lparr>fn_id = i, fn_length = n, nameSymbol = None, parametersSymbol = None,
      nameForParametersSymbol = None, slowSymbol = None, timeoutSymbol = None,
      retriesSymbol = None, executionSymbol = None\<rparr>"

section \<open>Classes and prototype chains\<close>

text \<open>
  The registration callback only reads properties, so a property is described by what a
  read of it gives: a function (\<open>Fn\<close>), some other value (\<open>Other\<close>), or, for an
  accessor whose getter throws when it is run on the object the callback reads it from
  (the prototype, where the fields of an instance are missing, or the class),
  an exception (\<open>Throws\<close>). An accessor whose getter returns a value there stands as
  that value; a getter is taken to do the same at every read.

  A level of the prototype chain holds the name of its constructor, whether that
  constructor has a \<^verbatim>\<open>__testdeck_suite\<close> property of its own, and the prototype's own
  properties with string keys in the order the class body created them (properties keyed
  by a symbol are no property names, and the walk never meets them). A test class gives
  \<^verbatim>\<open>target.before\<close> and \<^verbatim>\<open>target.after\<close>, the static hooks: the property that lookup
  on the constructor finds, \<open>None\<close> when there is none; and the chain from
  \<^verbatim>\<open>target.prototype\<close> up to, and excluding, \<^verbatim>\<open>Object.prototype\<close>.
\<close>

datatype 'p property = Fn "'p func" | Other | Throws

record 'p level =
  ctor_name :: string
  suiteSymbol :: bool
  members :: "(string \<times> 'p property) list"

record 'p test_class =
  static_before :: "'p property option"
  static_after :: "'p property option"
  chain :: "'p level list"

subsection \<open>Property order of JavaScript objects\<close>

text \<open>
  \<^verbatim>\<open>Object.getOwnPropertyNames\<close> and \<^verbatim>\<open>for ... in\<close> list the keys that are array indices
  first, in ascending numeric order, and then the other string keys in the order of
  their creation. An array index is a canonical decimal numeral below \<open>2^32 - 1\<close>.
\<close>

definition is_digit :: "char \<Rightarrow> bool" where
  "is_digit c = (c \<in> set ''0123456789'')"

definition digit_value :: "char \<Rightarrow> int" where
  "digit_value c = of_char c - 48"

definition index_value :: "string \<Rightarrow> int" where
  "index_value s = foldl (\<lambda>n c. 10 * n + digit_value c) 0 s"

definition is_array_index :: "string \<Rightarrow> bool" where
  "is_array_index s =
     (case s of
        [] \<Rightarrow> False
      | c # cs \<Rightarrow> list_all is_digit s \<and> (cs = [] \<or> c \<noteq> CHR ''0'')
                 \<and> index_value s < 4294967295)"

definition property_order :: "(string \<times> 'a) list \<Rightarrow> (string \<times> 'a) list" where
  "property_order ps =
     sort_key (\<lambda>p. index_value (fst p)) (filter (\<lambda>p. is_array_index (fst p)) ps)
     @ filter (\<lambda>p. \<not> is_array_index (fst p)) ps"

definition getOwnPropertyNames :: "'p level \<Rightarrow> string list" where
  "getOwnPropertyNames l = map fst (property_order (members l))"

text \<open>
  \<^verbatim>\<open>prototype[key]\<close>: the first level of the chain that owns the key decides. Beyond the
  chain lies \<^verbatim>\<open>Object.prototype\<close>, whose members carry no test metadata and which has
  no \<^verbatim>\<open>before\<close> or \<^verbatim>\<open>after\<close>.
\<close>

fun proto_get :: "'p level list \<Rightarrow> string \<Rightarrow> 'p property option" where
  "proto_get [] key = None"
| "proto_get (l # ls) key =
     (case map_of (members l) key of Some v \<Rightarrow> Some v | None \<Rightarrow> proto_get ls key)"

text \<open>
  \<^verbatim>\<open>currentPrototype.constructor[ClassTestUI.suiteSymbol]\<close>: a class constructor inherits
  the static properties of the classes it extends, so the flag is found when the
  constructor of this level or of any level above it was marked.
\<close>

definition constructor_suite :: "'p level list \<Rightarrow> bool" where
  "constructor_suite ls = list_ex suiteSymbol ls"

fun constructor_name :: "'p level list \<Rightarrow> string" where
  "constructor_name [] = ''Object''"
| "constructor_name (l # ls) = ctor_name l"

section \<open>The test runner\<close>

text \<open>
  The calls issued on the \<^verbatim>\<open>TestRunner\<close>. A callback is described by what it does when
  the runner invokes it: \<open>CallMethod m d args\<close> is
  \<^verbatim>\<open>m.call(instance, done, ...args)\<close> when \<open>d\<close> holds (the callback takes the completion
  callback \<^verbatim>\<open>done\<close>) and \<^verbatim>\<open>m.call(instance, ...args)\<close> otherwise;
  \<open>CallStatic m d\<close> is the same for a static hook called on the class. The callback
  of a child suite is described by the calls it issues. The name of a test or suite is
  the value passed, \<open>None\<close> for \<^verbatim>\<open>undefined\<close>.
\<close>

datatype 'p callback =
    CallMethod "'p func" bool "'p list"
  | CallStatic "'p func" bool
  | SetupInstance
  | TeardownInstance

datatype 'p call =
    RSuite "string option" "'p call list" "settings option"
  | RTest "string option" "'p callback" "settings option"
  | RBeforeAll string "'p callback" "settings option"
  | RBeforeEach string "'p callback" "settings option"
  | RAfterEach string "'p callback" "settings option"
  | RAfterAll string "'p callback" "settings option"

text \<open>
  What the callback can throw: the configuration error with its message, the
  \<^verbatim>\<open>TypeError\<close> of the \<^verbatim>\<open>in\<close> operator, and the exception of a getter, given with
  the name of the property that was read.
\<close>

datatype error = Error string | TypeError | Thrown string

section \<open>Suite materializer: \<^verbatim>\<open>suiteCallbackFromClass\<close>\<close>

definition isAsync :: "'p func \<Rightarrow> bool" where
  "isAsync method =
     (let isParameterised = (parametersSymbol method \<noteq> None);
          length = fn_length method
      in (isParameterised \<and> length > 1) \<or> (\<not> isParameterised \<and> length > 0))"

definition applyTestFunc ::
  "string option \<Rightarrow> 'p func \<Rightarrow> 'p list \<Rightarrow> settings option \<Rightarrow> 'p call" where
  "applyTestFunc testName method callArgs testSettings =
     RTest testName (CallMethod method (isAsync method) callArgs) testSettings"

text \<open>
  The name of the test of one parameter set, the \<open>i\<close>-th of the method: the fallback
  \<^verbatim>\<open>`${testName}_${i}`\<close>, replaced by the name of the set when that is truthy, and
  else by the result of the naming function when the method has one.
\<close>

definition parametersTestName ::
  "string option \<Rightarrow> ('p \<Rightarrow> string) option \<Rightarrow> nat \<Rightarrow> 'p test_params \<Rightarrow> string" where
  "parametersTestName testName nameForParameters i parameterOptions =
     (let unnamed =
            (case nameForParameters of
               Some naming \<Rightarrow> naming (tp_params parameterOptions)
             | None \<Rightarrow> template_string testName @ ''_'' @ string_of_nat i)
      in case tp_name parameterOptions of
           Some name \<Rightarrow> if name \<noteq> [] then name else unnamed
         | None \<Rightarrow> unnamed)"

definition declareTestMethod :: "'p func \<Rightarrow> 'p call list" where
  "declareTestMethod method =
     (let testName = nameSymbol method in
      case parametersSymbol method of
        Some parameters \<Rightarrow>
          [RSuite testName
             (map (\<lambda>(i, parameterOptions).
                     applyTestFunc
                       (Some (parametersTestName testName (nameForParametersSymbol method)
                                i parameterOptions))
                       method [tp_params parameterOptions]
                       (Some \<lparr>slow = None, timeout = None, retries = None,
                              execution = tp_execution parameterOptions\<rparr>))
                  (enumerate 0 parameters))
             (getSettings method)]
      | None \<Rightarrow> [applyTestFunc testName method [] (getSettings method)])"

subsection \<open>Collecting the test methods\<close>

text \<open>
  \<^verbatim>\<open>collectedTests\<close> is a plain object literal: besides the keys stored in it, a lookup
  finds the members it inherits from \<^verbatim>\<open>Object.prototype\<close>, which are all truthy.
\<close>

definition object_prototype_names :: "string list" where
  "object_prototype_names =
     [''constructor'', ''__defineGetter__'', ''__defineSetter__'', ''hasOwnProperty'',
      ''__lookupGetter__'', ''__lookupSetter__'', ''isPrototypeOf'',
      ''propertyIsEnumerable'', ''toString'', ''valueOf'', ''__proto__'',
      ''toLocaleString'']"

definition collected_truthy :: "(string \<times> 'p func) list \<Rightarrow> string \<Rightarrow> bool" where
  "collected_truthy collectedTests key =
     (map_of collectedTests key \<noteq> None \<or> List.member object_prototype_names key)"

text \<open>
  The body of the \<^verbatim>\<open>forEach\<close> over the own property names of one level. It reads
  \<^verbatim>\<open>prototype[key]\<close>, which runs a getter on the prototype: the exception of the getter
  leaves the callback.
\<close>

definition collect_key ::
  "'p level list \<Rightarrow> string \<Rightarrow> (string \<times> 'p func) list
   \<Rightarrow> error + (string \<times> 'p func) list" where
  "collect_key prototype key collectedTests =
     (case proto_get prototype key of
        Some Throws \<Rightarrow> Inl (Thrown key)
      | Some (Fn method) \<Rightarrow>
          Inr (if truthy (nameSymbol method) \<and> \<not> collected_truthy collectedTests key
               then collectedTests @ [(key, method)]
               else collectedTests)
      | _ \<Rightarrow> Inr collectedTests)"

text \<open>The \<^verbatim>\<open>forEach\<close> itself: the keys in order, until one throws.\<close>

fun collect_keys ::
  "'p level list \<Rightarrow> string list \<Rightarrow> (string \<times> 'p func) list
   \<Rightarrow> error + (string \<times> 'p func) list" where
  "collect_keys prototype [] collectedTests = Inr collectedTests"
| "collect_keys prototype (key # keys) collectedTests =
     (case collect_key prototype key collectedTests of
        Inl e \<Rightarrow> Inl e
      | Inr collected' \<Rightarrow> collect_keys prototype keys collected')"

text \<open>
  The \<^verbatim>\<open>while\<close> loop over the chain: the second argument is the chain from
  \<^verbatim>\<open>currentPrototype\<close> on, empty when \<^verbatim>\<open>Object.prototype\<close> is reached. After the keys
  of a level, the loop steps to the next level and throws when that level is not
  \<^verbatim>\<open>Object.prototype\<close> and its constructor carries the suite flag.
\<close>

fun collect_walk ::
  "'p level list \<Rightarrow> 'p level list \<Rightarrow> (string \<times> 'p func) list
   \<Rightarrow> error + (string \<times> 'p func) list" where
  "collect_walk prototype [] collectedTests = Inr collectedTests"
| "collect_walk prototype (currentPrototype # rest) collectedTests =
     (case collect_keys prototype (getOwnPropertyNames currentPrototype) collectedTests of
        Inl e \<Rightarrow> Inl e
      | Inr collected' \<Rightarrow>
          if rest \<noteq> [] \<and> constructor_suite rest
          then Inl (Error (''@suite '' @ constructor_name prototype
                           @ '' cannot be a subclass of @suite '' @ constructor_name rest
                           @ ''.''))
          else collect_walk prototype rest collected')"

subsection \<open>The hooks\<close>

text \<open>
  The hook registrations of the callback, one definition per step, for a hook that was
  read without an exception. The \<^verbatim>\<open>TestInstance\<close> and \<^verbatim>\<open>TestClass\<close> interfaces declare
  \<^verbatim>\<open>before\<close> and \<^verbatim>\<open>after\<close> as methods, so a value that is not a function is taken as
  absent.
\<close>

definition register_static_before :: "'p test_class \<Rightarrow> 'p call list" where
  "register_static_before target =
     (case static_before target of
        Some (Fn b) \<Rightarrow>
          [RBeforeAll ''static before'' (CallStatic b (isAsync b)) (getSettings b)]
      | _ \<Rightarrow> [])"

definition register_setup :: "'p call list" where
  "register_setup = [RBeforeEach ''setup instance'' SetupInstance None]"

definition register_before :: "'p level list \<Rightarrow> 'p call list" where
  "register_before prototype =
     (case proto_get prototype ''before'' of
        Some (Fn b) \<Rightarrow> [RBeforeEach ''before'' (CallMethod b (isAsync b) []) (getSettings b)]
      | _ \<Rightarrow> [])"

definition register_after :: "'p level list \<Rightarrow> 'p call list" where
  "register_after prototype =
     (case proto_get prototype ''after'' of
        Some (Fn a) \<Rightarrow> [RAfterEach ''after'' (CallMethod a (isAsync a) []) (getSettings a)]
      | _ \<Rightarrow> [])"

definition register_teardown :: "'p call list" where
  "register_teardown = [RAfterEach ''teardown instance'' TeardownInstance None]"

text \<open>
  The static \<^verbatim>\<open>after\<close> hook is registered with \<^verbatim>\<open>getSettings(target.before)\<close>, an
  argument evaluated before \<^verbatim>\<open>runner.afterAll\<close> is called. When the class has no static
  \<^verbatim>\<open>before\<close>, the \<^verbatim>\<open>in\<close> operator of \<^verbatim>\<open>getSettings\<close> is applied to \<^verbatim>\<open>undefined\<close> and
  throws a \<^verbatim>\<open>TypeError\<close>.
\<close>

definition register_static_after :: "'p test_class \<Rightarrow> 'p call list \<times> error option" where
  "register_static_after target =
     (case static_after target of
        Some Throws \<Rightarrow> ([], Some (Thrown ''after''))
      | Some (Fn a) \<Rightarrow>
          (case static_before target of
             Some Throws \<Rightarrow> ([], Some (Thrown ''before''))
           | Some (Fn b) \<Rightarrow>
               ([RAfterAll ''static after'' (CallStatic a (isAsync a)) (getSettings b)],
                None)
           | _ \<Rightarrow> ([], Some TypeError))
      | _ \<Rightarrow> ([], None))"

subsection \<open>The registration callback\<close>

text \<open>
  The function returned by \<^verbatim>\<open>suiteCallbackFromClass(target)\<close>, run once: the calls it
  issues on the runner, in order, and the error it throws, if any. When it throws, the
  list holds the calls issued until then. Each hook is read before it is registered, and
  the exception of a getter ends the callback at that read.
\<close>

definition run_tests :: "(string \<times> 'p func) list \<Rightarrow> 'p call list" where
  "run_tests collectedTests =
     concat (map (\<lambda>(key, method). declareTestMethod method) (property_order collectedTests))"

definition suiteCallbackFromClass :: "'p test_class \<Rightarrow> 'p call list \<times> error option" where
  "suiteCallbackFromClass target =
     (let prototype = chain target in
      if static_before target = Some Throws then ([], Some (Thrown ''before''))
      else if proto_get prototype ''before'' = Some Throws
      then (register_static_before target @ register_setup, Some (Thrown ''before''))
      else
        let hooks = register_static_before target @ register_setup @ register_before prototype
        in case collect_walk prototype prototype [] of
             Inl e \<Rightarrow> (hooks, Some e)
           | Inr collectedTests \<Rightarrow>
               if proto_get prototype ''after'' = Some Throws
               then (hooks @ run_tests collectedTests, Some (Thrown ''after''))
               else (hooks @ run_tests collectedTests @ register_after prototype
                       @ register_teardown @ fst (register_static_after target),
                     snd (register_static_after target)))"

section \<open>Vocabulary of the properties\<close>

text \<open>Which runner call is which, and the name a call was given.\<close>

fun is_test :: "'p call \<Rightarrow> bool" where
  "is_test (RTest n cb s) = True"
| "is_test _ = False"

fun is_setup :: "'p call \<Rightarrow> bool" where
  "is_setup (RBeforeEach n SetupInstance s) = True"
| "is_setup _ = False"

fun is_teardown :: "'p call \<Rightarrow> bool" where
  "is_teardown (RAfterEach n TeardownInstance s) = True"
| "is_teardown _ = False"

fun call_name :: "'p call \<Rightarrow> string option" where
  "call_name (RSuite n cs s) = n"
| "call_name (RTest n cb s) = n"
| "call_name (RBeforeAll n cb s) = Some n"
| "call_name (RBeforeEach n cb s) = Some n"
| "call_name (RAfterEach n cb s) = Some n"
| "call_name (RAfterAll n cb s) = Some n"


text \<open>
  The methods of a prototype that carry test-name metadata (a truthy
  \<^verbatim>\<open>__testdeck_name\<close>), with their keys, in the order the class body declares them.
\<close>

fun test_entry :: "string \<times> 'p property \<Rightarrow> (string \<times> 'p func) option" where
  "test_entry (key, Fn m) = (if truthy (nameSymbol m) then Some (key, m) else None)"
| "test_entry (key, Other) = None"
| "test_entry (key, Throws) = None"

definition test_methods :: "(string \<times> 'p property) list \<Rightarrow> (string \<times> 'p func) list" where
  "test_methods ms = List.map_filter test_entry ms"

text \<open>
  What the walk stores for a key when it meets the key for the first time; what the
  body of the \<^verbatim>\<open>forEach\<close> makes of \<^verbatim>\<open>collectedTests\<close> when the read of the key does not
  throw; and the walk over the levels when no read throws, without the check of the
  constructors.
\<close>

definition collect_entry :: "'p level list \<Rightarrow> string \<Rightarrow> (string \<times> 'p func) option" where
  "collect_entry prototype key =
     (case proto_get prototype key of
        Some (Fn m) \<Rightarrow>
          if truthy (nameSymbol m) \<and> \<not> List.member object_prototype_names key
          then Some (key, m) else None
      | _ \<Rightarrow> None)"

definition store_key ::
  "'p level list \<Rightarrow> string \<Rightarrow> (string \<times> 'p func) list \<Rightarrow> (string \<times> 'p func) list" where
  "store_key prototype key collectedTests =
     (case collect_entry prototype key of
        None \<Rightarrow> collectedTests
      | Some e \<Rightarrow>
          if key \<in> fst ` set collectedTests then collectedTests else collectedTests @ [e])"

definition walk_levels ::
  "'p level list \<Rightarrow> 'p level list \<Rightarrow> (string \<times> 'p func) list \<Rightarrow> (string \<times> 'p func) list" where
  "walk_levels prototype ls collectedTests =
     fold (\<lambda>l. fold (store_key prototype) (getOwnPropertyNames l)) ls collectedTests"

text \<open>
  No getter on the prototypes of the chain throws when it is read on the prototype.
\<close>

definition no_throwing_getter :: "'p level list \<Rightarrow> bool" where
  "no_throwing_getter ls = list_all (\<lambda>l. list_all (\<lambda>(key, p). p \<noteq> Throws) (members l)) ls"

text \<open>
  The \<^verbatim>\<open>@params\<close> decorator written for one parameter set:
  \<^verbatim>\<open>@params(value, name)\<close> or one of its \<^verbatim>\<open>.skip\<close>, \<^verbatim>\<open>.only\<close>, \<^verbatim>\<open>.pending\<close> variants.
\<close>

definition params_decorator :: "'p test_params \<Rightarrow> 'p method_decorator" where
  "params_decorator po = makeParamsFunction (tp_execution po) (tp_params po) (tp_name po)"

text \<open>The test registered for a method without parameter sets.\<close>

definition plain_test :: "'p func \<Rightarrow> 'p call" where
  "plain_test m = RTest (nameSymbol m) (CallMethod m (isAsync m) []) (getSettings m)"

section \<open>Example classes\<close>

text \<open>
  The classes and methods the closed theorems below are evaluated on. Parameter values
  are strings. A method is written as its declaration (\<open>plain_method\<close> with an
  identity and its number of parameters) under the decorators that stand above it.
\<close>

definition bare_test :: "string \<Rightarrow> nat \<Rightarrow> nat \<Rightarrow> string func" where
  "bare_test key i n = decorate [testProperty None] key (plain_method i n)"

definition example_constructor :: "string \<times> string property" where
  "example_constructor = (''constructor'', Fn (plain_method 0 0))"

text \<open>
  \<^verbatim>\<open>class ServerTests { connect() {} disconnect() {} }\<close> and
  \<^verbatim>\<open>@suite class A extends ServerTests { @test one() {} helper() {} get size() { return 2 }\<close>
  \<^verbatim>\<open>  @test @timeout(1000) two(done) {} }\<close>
\<close>

definition timed_test :: "string func" where
  "timed_test =
     decorate [testProperty None, createExecutionOption TimeoutKey 1000] ''two''
       (plain_method 3 1)"

definition two_tests_level :: "string level" where
  "two_tests_level =
     \<lparr>ctor_name = ''A'', suiteSymbol = True,
      members = [example_constructor,
                 (''one'', Fn (bare_test ''one'' 4 0)),
                 (''helper'', Fn (plain_method 2 0)),
                 (''size'', Other),
                 (''two'', Fn timed_test)]\<rparr>"

definition server_level :: "string level" where
  "server_level =
     \<lparr>ctor_name = ''ServerTests'', suiteSymbol = False,
      members = [example_constructor,
                 (''connect'', Fn (plain_method 5 0)),
                 (''disconnect'', Fn (plain_method 6 0))]\<rparr>"

definition two_tests_class :: "string test_class" where
  "two_tests_class =
     \<lparr>static_before = None, static_after = None, chain = [two_tests_level, server_level]\<rparr>"

text \<open>\<^verbatim>\<open>@suite class Numbered { @test b() {} @test 1() {} }\<close>\<close>

definition numbered_members :: "(string \<times> string property) list" where
  "numbered_members =
     [example_constructor, (''b'', Fn (bare_test ''b'' 1 0)), (''1'', Fn (bare_test ''1'' 2 0))]"

definition numbered_tests_class :: "string test_class" where
  "numbered_tests_class =
     \<lparr>static_before = None, static_after = None,
      chain = [\<lparr>ctor_name = ''Numbered'', suiteSymbol = True,
                members = numbered_members\<rparr>]\<rparr>"

text \<open>\<^verbatim>\<open>@suite class Shadowed { @test valueOf() {} @test real() {} }\<close>\<close>

definition shadowed_name_class :: "string test_class" where
  "shadowed_name_class =
     \<lparr>static_before = None, static_after = None,
      chain = [\<lparr>ctor_name = ''Shadowed'', suiteSymbol = True,
                members = [example_constructor,
                           (''valueOf'', Fn (bare_test ''valueOf'' 1 0)),
                           (''real'', Fn (bare_test ''real'' 2 0))]\<rparr>]\<rparr>"

text \<open>
  \<^verbatim>\<open>@suite("Base") class Base { @test base() {} }\<close> and
  \<^verbatim>\<open>@suite class Derived extends Base { static before() {} before() {} @test derived() {} }\<close>
\<close>

definition derived_suite_class :: "string test_class" where
  "derived_suite_class =
     \<lparr>static_before = Some (Fn (plain_method 1 0)), static_after = None,
      chain = [\<lparr>ctor_name = ''Derived'', suiteSymbol = True,
                members = [example_constructor,
                           (''before'', Fn (plain_method 2 0)),
                           (''derived'', Fn (bare_test ''derived'' 3 0))]\<rparr>,
               \<lparr>ctor_name = ''Base'', suiteSymbol = True,
                members = [example_constructor,
                           (''base'', Fn (bare_test ''base'' 4 0))]\<rparr>]\<rparr>"

text \<open>
  \<^verbatim>\<open>@suite class Hooks { @timeout(100) static before() {} @timeout(200) static after() {} @test t() {} }\<close>
  and the same class without the static \<^verbatim>\<open>before\<close>.
\<close>

definition hooks_before :: "string func" where
  "hooks_before = decorate [createExecutionOption TimeoutKey 100] ''before'' (plain_method 1 0)"

definition hooks_after :: "string func" where
  "hooks_after = decorate [createExecutionOption TimeoutKey 200] ''after'' (plain_method 2 0)"

definition static_hooks_class :: "string test_class" where
  "static_hooks_class =
     \<lparr>static_before = Some (Fn hooks_before), static_after = Some (Fn hooks_after),
      chain = [\<lparr>ctor_name = ''Hooks'', suiteSymbol = True,
                members = [example_constructor, (''t'', Fn (bare_test ''t'' 3 0))]\<rparr>]\<rparr>"

definition static_after_only_class :: "string test_class" where
  "static_after_only_class = static_hooks_class\<lparr>static_before := None\<rparr>"

text \<open>
  \<^verbatim>\<open>@params("first") @params("second") run(value) {}\<close>, and the same method under
  \<^verbatim>\<open>@params("value") @test("custom name")\<close>.
\<close>

definition two_params_method :: "string func" where
  "two_params_method =
     decorate [makeParamsFunction None ''first'' None, makeParamsFunction None ''second'' None]
       ''run'' (plain_method 1 1)"

definition renamed_method :: "string func" where
  "renamed_method = decorate [testDecoratorNamed None ''custom name'' []] ''run'' (plain_method 1 1)"

text \<open>
  \<^verbatim>\<open>@suite class Retrying { @timeout(100) static before() {} @timeout(200) static after() {}\<close>
  \<^verbatim>\<open>  @retries(3) @skip before() {} @timeout(50) after(done) {} @test t() {} }\<close>
\<close>

definition retrying_before :: "string func" where
  "retrying_before =
     decorate [createExecutionOption RetriesKey 3, modifier_on_method Skip] ''before''
       (plain_method 4 0)"

definition timed_after :: "string func" where
  "timed_after = decorate [createExecutionOption TimeoutKey 50] ''after'' (plain_method 5 1)"

definition retrying_hook_class :: "string test_class" where
  "retrying_hook_class =
     \<lparr>static_before = Some (Fn hooks_before), static_after = Some (Fn hooks_after),
      chain = [\<lparr>ctor_name = ''Retrying'', suiteSymbol = True,
                members = [example_constructor,
                           (''before'', Fn retrying_before),
                           (''after'', Fn timed_after),
                           (''t'', Fn (bare_test ''t'' 3 0))]\<rparr>]\<rparr>"

text \<open>
  A method with three parameter sets, the first named, and a naming function; the
  same method without the naming function.
\<close>

definition three_sets :: "string test_params list" where
  "three_sets =
     [\<lparr>tp_execution = None, tp_name = Some ''named set'', tp_params = ''a''\<rparr>,
      \<lparr>tp_execution = Some Skip, tp_name = None, tp_params = ''b''\<rparr>,
      \<lparr>tp_execution = None, tp_name = Some [], tp_params = ''c''\<rparr>]"

definition fallback_named_method :: "string func" where
  "fallback_named_method =
     (plain_method 1 2)\<lparr>nameSymbol := Some ''run'', parametersSymbol := Some three_sets\<rparr>"

definition function_named_method :: "string func" where
  "function_named_method =
     fallback_named_method\<lparr>nameForParametersSymbol := Some (\<lambda>p. ''with '' @ p)\<rparr>"

text \<open>A suite whose only test method is the method with the naming function.\<close>

definition parameterised_class :: "string test_class" where
  "parameterised_class =
     \<lparr>static_before = None, static_after = None,
      chain = [\<lparr>ctor_name = ''Parameterised'', suiteSymbol = True,
                members = [example_constructor, (''run'', Fn function_named_method)]\<rparr>]\<rparr>"

text \<open>\<^verbatim>\<open>@suite class ShadowedParams { @params("x") valueOf(value) {} }\<close>\<close>

definition shadowed_params_method :: "string func" where
  "shadowed_params_method =
     decorate [makeParamsFunction None ''x'' None] ''valueOf'' (plain_method 1 1)"

definition shadowed_params_class :: "string test_class" where
  "shadowed_params_class =
     \<lparr>static_before = None, static_after = None,
      chain = [\<lparr>ctor_name = ''ShadowedParams'', suiteSymbol = True,
                members = [example_constructor, (''valueOf'', Fn shadowed_params_method)]\<rparr>]\<rparr>"

text \<open>
  \<^verbatim>\<open>@suite class Cases extends Base { @params("x") run(value) {} }\<close> with
  \<^verbatim>\<open>@suite("Base") class Base {}\<close>
\<close>

definition derived_params_method :: "string func" where
  "derived_params_method =
     decorate [makeParamsFunction None ''x'' None] ''run'' (plain_method 1 1)"

definition derived_params_class :: "string test_class" where
  "derived_params_class =
     \<lparr>static_before = None, static_after = None,
      chain = [\<lparr>ctor_name = ''Cases'', suiteSymbol = True,
                members = [example_constructor, (''run'', Fn derived_params_method)]\<rparr>,
               \<lparr>ctor_name = ''Base'', suiteSymbol = True, members = [example_constructor]\<rparr>]\<rparr>"

text \<open>
  \<^verbatim>\<open>@suite class G { items; @test first() {} get count() { return this.items.length } @test t() {} }\<close>:
  read on the prototype, which has no \<^verbatim>\<open>items\<close>, the getter throws. The same class
  as a suite \<open>Listing\<close> that extends \<^verbatim>\<open>@suite("Base") class Base {}\<close>.
\<close>

definition getter_level :: "string \<Rightarrow> string level" where
  "getter_level name =
     \<lparr>ctor_name = name, suiteSymbol = True,
      members = [example_constructor,
                 (''first'', Fn (bare_test ''first'' 1 0)),
                 (''count'', Throws),
                 (''t'', Fn (bare_test ''t'' 2 0))]\<rparr>"

definition getter_class :: "string test_class" where
  "getter_class =
     \<lparr>static_before = None, static_after = None, chain = [getter_level ''G'']\<rparr>"

definition getter_derived_class :: "string test_class" where
  "getter_derived_class =
     \<lparr>static_before = None, static_after = None,
      chain = [getter_level ''Listing'',
               \<lparr>ctor_name = ''Base'', suiteSymbol = True, members = [example_constructor]\<rparr>]\<rparr>"

text \<open>
  \<^verbatim>\<open>class AbstractTestBase { @test inherited() {} }\<close> extended by a suite that overrides
  the method, once with \<^verbatim>\<open>@test\<close> on the override and once without.
\<close>

definition base_version :: "string func" where
  "base_version = bare_test ''inherited'' 1 0"

definition base_level :: "string level" where
  "base_level =
     \<lparr>ctor_name = ''AbstractTestBase'', suiteSymbol = False,
      members = [example_constructor, (''inherited'', Fn base_version)]\<rparr>"

definition decorated_override :: "string func" where
  "decorated_override = bare_test ''inherited'' 2 0"

definition decorated_override_class :: "string test_class" where
  "decorated_override_class =
     \<lparr>static_before = None, static_after = None,
      chain = [\<lparr>ctor_name = ''ConcreteTest'', suiteSymbol = True,
                members = [example_constructor, (''inherited'', Fn decorated_override)]\<rparr>,
               base_level]\<rparr>"

definition undecorated_override_class :: "string test_class" where
  "undecorated_override_class =
     \<lparr>static_before = None, static_after = None,
      chain = [\<lparr>ctor_name = ''ConcreteTest'', suiteSymbol = True,
                members = [example_constructor, (''inherited'', Fn (plain_method 2 0))]\<rparr>,
               base_level]\<rparr>"

section \<open>Evaluation\<close>

lemmas decorator_defs =
  decorate_def testProperty_def testDecorator_def testDecoratorNamed_def set_execution_def
  makeParamsFunction_def makeParamsNameFunction_def modifier_on_method_def
  modifier_on_condition_def plain_method_def

lemmas order_defs =
  getOwnPropertyNames_def property_order_def is_array_index_def index_value_def
  digit_value_def is_digit_def

lemmas callback_defs =
  suiteCallbackFromClass_def register_static_before_def register_setup_def
  register_before_def register_after_def register_teardown_def register_static_after_def
  run_tests_def declareTestMethod_def applyTestFunc_def parametersTestName_def isAsync_def
  getSettings_def collect_key_def collected_truthy_def object_prototype_names_def
  constructor_suite_def Let_def

lemmas example_defs =
  bare_test_def example_constructor_def timed_test_def two_tests_level_def server_level_def
  two_tests_class_def numbered_members_def numbered_tests_class_def
  shadowed_name_class_def derived_suite_class_def hooks_before_def hooks_after_def
  static_hooks_class_def static_after_only_class_def two_params_method_def
  renamed_method_def retrying_before_def timed_after_def retrying_hook_class_def
  three_sets_def fallback_named_method_def function_named_method_def
  parameterised_class_def shadowed_params_method_def shadowed_params_class_def
  derived_params_method_def derived_params_class_def
  getter_level_def getter_class_def getter_derived_class_def base_version_def
  base_level_def decorated_override_def decorated_override_class_def
  undecorated_override_class_def

lemma string_of_nat_digits:
  "string_of_nat 0 = ''0''" "string_of_nat 1 = ''1''" "string_of_nat 2 = ''2''"
  "string_of_nat (Suc 0) = ''1''" "string_of_nat (Suc (Suc 0)) = ''2''"
  by (simp_all add: string_of_nat.simps)


section \<open>The walk over the prototype chain\<close>

subsection \<open>What the walk collects\<close>

lemma collect_entry_pair: "collect_entry P k = Some (a, b) \<Longrightarrow> a = k"
  by (auto simp add: collect_entry_def split: option.splits property.splits if_splits)

lemma collect_entry_key: "collect_entry P k = Some e \<Longrightarrow> fst e = k"
  by (cases e) (auto dest: collect_entry_pair)

lemma fold_store_key_exact:
  "distinct ks \<Longrightarrow> set ks \<inter> fst ` set acc = {} \<Longrightarrow>
   fold (store_key P) ks acc = acc @ List.map_filter (collect_entry P) ks"
proof (induction ks arbitrary: acc)
  case Nil
  then show ?case by simp
next
  case (Cons k ks)
  show ?case
  proof (cases "collect_entry P k")
    case None
    with Cons show ?thesis by (simp add: store_key_def)
  next
    case (Some e)
    then have "fst e = k" by (rule collect_entry_key)
    with Cons.prems have "set ks \<inter> fst ` set (acc @ [e]) = {}" by auto
    with Cons Some show ?thesis by (simp add: store_key_def)
  qed
qed

lemma store_key_distinct:
  "distinct (map fst acc) \<Longrightarrow> distinct (map fst (store_key P k acc))"
proof (cases "collect_entry P k")
  case None
  assume "distinct (map fst acc)"
  with None show ?thesis by (simp add: store_key_def)
next
  case (Some e)
  assume "distinct (map fst acc)"
  moreover from Some have "fst e = k" by (rule collect_entry_key)
  ultimately show ?thesis using Some by (simp add: store_key_def)
qed

lemma store_key_sound:
  "list_all (\<lambda>e. collect_entry P (fst e) = Some e) acc \<Longrightarrow>
   list_all (\<lambda>e. collect_entry P (fst e) = Some e) (store_key P k acc)"
  by (auto simp add: store_key_def dest: collect_entry_pair split: option.splits)

lemma store_key_mono: "set acc \<subseteq> set (store_key P k acc)"
  by (auto simp add: store_key_def split: option.splits)

lemma store_key_adds:
  "collect_entry P k = Some e \<Longrightarrow> k \<in> fst ` set (store_key P k acc)"
  by (auto simp add: store_key_def dest: collect_entry_key split: option.splits)

lemma fold_store_key_distinct:
  "distinct (map fst acc) \<Longrightarrow> distinct (map fst (fold (store_key P) ks acc))"
  by (induction ks arbitrary: acc) (auto simp add: store_key_distinct)

lemma fold_store_key_sound:
  "list_all (\<lambda>e. collect_entry P (fst e) = Some e) acc \<Longrightarrow>
   list_all (\<lambda>e. collect_entry P (fst e) = Some e) (fold (store_key P) ks acc)"
  by (induction ks arbitrary: acc) (auto simp add: store_key_sound)

lemma fold_store_key_mono: "set acc \<subseteq> set (fold (store_key P) ks acc)"
proof (induction ks arbitrary: acc)
  case Nil
  show ?case by simp
next
  case (Cons k ks)
  have "set acc \<subseteq> set (store_key P k acc)" by (rule store_key_mono)
  also have "\<dots> \<subseteq> set (fold (store_key P) ks (store_key P k acc))" by (rule Cons.IH)
  finally show ?case by simp
qed

lemma fold_store_key_adds:
  "k \<in> set ks \<Longrightarrow> collect_entry P k = Some e \<Longrightarrow>
   k \<in> fst ` set (fold (store_key P) ks acc)"
proof (induction ks arbitrary: acc)
  case Nil
  then show ?case by simp
next
  case (Cons a ks)
  show ?case
  proof (cases "k = a")
    case True
    with Cons.prems have "k \<in> fst ` set (store_key P a acc)" by (simp add: store_key_adds)
    then show ?thesis using fold_store_key_mono [of "store_key P a acc" P ks] by auto
  next
    case False
    with Cons show ?thesis by simp
  qed
qed

lemma walk_levels_distinct:
  "distinct (map fst acc) \<Longrightarrow> distinct (map fst (walk_levels P ls acc))"
  unfolding walk_levels_def
  by (induction ls arbitrary: acc) (auto simp add: fold_store_key_distinct)

lemma walk_levels_sound:
  "list_all (\<lambda>e. collect_entry P (fst e) = Some e) acc \<Longrightarrow>
   list_all (\<lambda>e. collect_entry P (fst e) = Some e) (walk_levels P ls acc)"
  unfolding walk_levels_def
  by (induction ls arbitrary: acc) (auto simp add: fold_store_key_sound)

lemma walk_levels_mono: "set acc \<subseteq> set (walk_levels P ls acc)"
  unfolding walk_levels_def
proof (induction ls arbitrary: acc)
  case Nil
  show ?case by simp
next
  case (Cons l ls)
  have "set acc \<subseteq> set (fold (store_key P) (getOwnPropertyNames l) acc)"
    by (rule fold_store_key_mono)
  also have "\<dots> \<subseteq> set (fold (\<lambda>l. fold (store_key P) (getOwnPropertyNames l)) ls
                      (fold (store_key P) (getOwnPropertyNames l) acc))"
    by (rule Cons.IH)
  finally show ?case by simp
qed

lemma walk_levels_adds:
  "l \<in> set ls \<Longrightarrow> k \<in> set (getOwnPropertyNames l) \<Longrightarrow> collect_entry P k = Some e \<Longrightarrow>
   k \<in> fst ` set (walk_levels P ls acc)"
proof (induction ls arbitrary: acc)
  case Nil
  then show ?case by simp
next
  case (Cons a ls)
  show ?case
  proof (cases "l = a")
    case True
    with Cons.prems have "k \<in> fst ` set (fold (store_key P) (getOwnPropertyNames a) acc)"
      by (simp add: fold_store_key_adds)
    then show ?thesis
      using walk_levels_mono [of "fold (store_key P) (getOwnPropertyNames a) acc" P ls]
      by (auto simp add: walk_levels_def)
  next
    case False
    with Cons show ?thesis by (simp add: walk_levels_def)
  qed
qed

lemma filter_key_unique:
  "distinct (map fst xs) \<Longrightarrow> e \<in> set xs \<Longrightarrow> filter (\<lambda>x. fst x = fst e) xs = [e]"
proof (induction xs)
  case Nil
  then show ?case by simp
next
  case (Cons a xs)
  show ?case
  proof (cases "a = e")
    case True
    with Cons.prems have "fst e \<notin> fst ` set xs" by simp
    then have "\<forall>x \<in> set xs. fst x \<noteq> fst e" by (metis imageI)
    then have "filter (\<lambda>x. fst x = fst e) xs = []" by (simp add: filter_empty_conv)
    with True show ?thesis by simp
  next
    case False
    with Cons.prems have "e \<in> set xs" by simp
    with Cons.prems have "fst a \<noteq> fst e" by force
    with Cons \<open>e \<in> set xs\<close> show ?thesis by simp
  qed
qed

lemma walk_levels_entry:
  assumes "l \<in> set ls" "k \<in> set (getOwnPropertyNames l)" "collect_entry P k = Some e"
  shows "e \<in> set (walk_levels P ls []) \<and> filter (\<lambda>x. fst x = k) (walk_levels P ls []) = [e]"
proof -
  let ?c = "walk_levels P ls []"
  have d: "distinct (map fst ?c)" by (rule walk_levels_distinct) simp
  have s: "list_all (\<lambda>e. collect_entry P (fst e) = Some e) ?c" by (rule walk_levels_sound) simp
  from assms have "k \<in> fst ` set ?c" by (rule walk_levels_adds)
  then obtain x where x: "x \<in> set ?c" "fst x = k" by auto
  with s have "collect_entry P k = Some x" by (auto simp add: list_all_iff)
  with assms(3) have "x = e" by simp
  with x have e: "e \<in> set ?c" "fst e = k" by simp_all
  from filter_key_unique [OF d e(1)] e show ?thesis by simp
qed

subsection \<open>Property order\<close>

lemma property_order_filter:
  "filter P (property_order xs) = property_order (filter P xs)"
  by (simp add: property_order_def filter_sort conj_commute)

lemma property_order_single: "property_order [e] = [e]"
  by (simp add: property_order_def)

lemma property_order_set: "set (property_order xs) = set xs"
  by (auto simp add: property_order_def)

lemma property_order_length: "length (property_order xs) = length xs"
  by (simp add: property_order_def sum_length_filter_compl)

lemma property_order_idem: "property_order (property_order xs) = property_order xs"
proof -
  let ?I = "\<lambda>p::string \<times> 'a. is_array_index (fst p)"
  let ?f = "\<lambda>p::string \<times> 'a. index_value (fst p)"
  let ?A = "sort_key ?f (filter ?I xs)"
  let ?B = "filter (\<lambda>p. \<not> ?I p) xs"
  have a: "filter ?I ?A = ?A" by (simp add: filter_sort)
  have b: "filter ?I ?B = []" by (simp add: filter_empty_conv)
  have c: "filter (\<lambda>p. \<not> ?I p) ?A = []" by (simp add: filter_empty_conv)
  have d: "filter (\<lambda>p. \<not> ?I p) ?B = ?B" by simp
  have e: "sort_key ?f ?A = ?A" by (rule sort_key_id_if_sorted) (rule sorted_sort_key)
  show ?thesis
    unfolding property_order_def filter_append a b c d by (simp add: e)
qed

lemma map_insort_key:
  "(\<And>y. y \<in> set (x # xs) \<Longrightarrow> f' (h y) = f y) \<Longrightarrow>
   map h (insort_key f x xs) = insort_key f' (h x) (map h xs)"
  by (induction xs) auto

lemma map_sort_key:
  "(\<And>y. y \<in> set xs \<Longrightarrow> f' (h y) = f y) \<Longrightarrow>
   map h (sort_key f xs) = sort_key f' (map h xs)"
proof (induction xs)
  case Nil
  show ?case by simp
next
  case (Cons x xs)
  have "map h (insort_key f x (sort_key f xs)) = insort_key f' (h x) (map h (sort_key f xs))"
    by (rule map_insort_key) (use Cons.prems in auto)
  with Cons show ?case by simp
qed

lemma property_order_map:
  assumes "\<And>y. y \<in> set xs \<Longrightarrow> fst (h y) = fst y"
  shows "map h (property_order xs) = property_order (map h xs)"
proof -
  have 1: "filter (\<lambda>p. is_array_index (fst p)) (map h xs)
           = map h (filter (\<lambda>p. is_array_index (fst p)) xs)"
    using assms by (induction xs) auto
  have 2: "filter (\<lambda>p. \<not> is_array_index (fst p)) (map h xs)
           = map h (filter (\<lambda>p. \<not> is_array_index (fst p)) xs)"
    using assms by (induction xs) auto
  have 3: "map h (sort_key (\<lambda>p. index_value (fst p)) (filter (\<lambda>p. is_array_index (fst p)) xs))
           = sort_key (\<lambda>p. index_value (fst p))
               (map h (filter (\<lambda>p. is_array_index (fst p)) xs))"
    by (rule map_sort_key) (use assms in auto)
  show ?thesis by (simp add: property_order_def 1 2 3)
qed

lemma property_order_map_filter:
  assumes "\<And>x y. g x = Some y \<Longrightarrow> fst y = fst x"
  shows "List.map_filter g (property_order xs) = property_order (List.map_filter g xs)"
proof -
  have "map (the \<circ> g) (property_order (filter (\<lambda>x. g x \<noteq> None) xs))
        = property_order (map (the \<circ> g) (filter (\<lambda>x. g x \<noteq> None) xs))"
    by (rule property_order_map) (use assms in auto)
  then show ?thesis by (simp add: List.map_filter_def property_order_filter)
qed

lemma property_order_no_index:
  "list_all (\<lambda>p. \<not> is_array_index (fst p)) xs \<Longrightarrow> property_order xs = xs"
  by (simp add: property_order_def list_all_iff filter_empty_conv)

lemma property_order_distinct_keys:
  "distinct (map fst xs) \<Longrightarrow> distinct (map fst (property_order xs))"
  by (auto simp add: property_order_def distinct_map inj_on_def)


subsection \<open>Reads that throw, and the walk when none does\<close>

lemma collect_key_read:
  "collect_key P k acc =
     (if proto_get P k = Some Throws then Inl (Thrown k) else Inr (store_key P k acc))"
  by (auto simp add: collect_key_def store_key_def collect_entry_def collected_truthy_def
      map_of_eq_None_iff split: option.splits property.splits)

lemma collect_keys_safe:
  "list_all (\<lambda>k. proto_get P k \<noteq> Some Throws) ks \<Longrightarrow>
   collect_keys P ks acc = Inr (fold (store_key P) ks acc)"
  by (induction ks arbitrary: acc) (simp_all add: collect_key_read)

lemma proto_get_member:
  "proto_get ls k = Some p \<Longrightarrow> \<exists>l \<in> set ls. (k, p) \<in> set (members l)"
proof (induction ls)
  case Nil
  then show ?case by simp
next
  case (Cons a ls)
  show ?case
  proof (cases "map_of (members a) k")
    case None
    with Cons show ?thesis by simp
  next
    case (Some v)
    with Cons.prems have "(k, p) \<in> set (members a)" by (auto dest: map_of_SomeD)
    then show ?thesis by auto
  qed
qed

lemma proto_get_safe: "no_throwing_getter ls \<Longrightarrow> proto_get ls k \<noteq> Some Throws"
proof
  assume n: "no_throwing_getter ls" and "proto_get ls k = Some Throws"
  then obtain l where "l \<in> set ls" "(k, Throws) \<in> set (members l)"
    by (blast dest: proto_get_member)
  with n show False by (auto simp add: no_throwing_getter_def list_all_iff)
qed


lemma collect_walk_no_suite:
  assumes "\<And>k. proto_get P k \<noteq> Some Throws"
  shows "\<not> list_ex suiteSymbol (tl ls) \<Longrightarrow> collect_walk P ls acc = Inr (walk_levels P ls acc)"
proof (induction ls arbitrary: acc)
  case Nil
  then show ?case by (simp add: walk_levels_def)
next
  case (Cons cur rest)
  then have "\<not> list_ex suiteSymbol rest" by simp
  moreover from this have "\<not> list_ex suiteSymbol (tl rest)" by (cases rest) auto
  moreover have "collect_keys P (getOwnPropertyNames cur) acc
                 = Inr (fold (store_key P) (getOwnPropertyNames cur) acc)"
    by (rule collect_keys_safe) (simp add: list_all_iff assms)
  ultimately show ?case using Cons.IH by (simp add: constructor_suite_def walk_levels_def)
qed



lemma callback_without_suite_ancestor:
  assumes "static_before t \<noteq> Some Throws" and "no_throwing_getter (chain t)"
      and "\<not> list_ex suiteSymbol (tl (chain t))"
  shows "suiteCallbackFromClass t =
     (register_static_before t @ register_setup @ register_before (chain t)
      @ run_tests (walk_levels (chain t) (chain t) []) @ register_after (chain t)
      @ register_teardown @ fst (register_static_after t),
      snd (register_static_after t))"
proof -
  have s: "proto_get (chain t) k \<noteq> Some Throws" for k
    by (rule proto_get_safe [OF assms(2)])
  have "collect_walk (chain t) (chain t) [] = Inr (walk_levels (chain t) (chain t) [])"
    by (rule collect_walk_no_suite [OF s assms(3)])
  then show ?thesis
    using assms(1) s by (simp add: suiteCallbackFromClass_def Let_def)
qed

lemma own_key_listed:
  "map_of (members l) key = Some v \<Longrightarrow> key \<in> set (getOwnPropertyNames l)"
proof -
  assume "map_of (members l) key = Some v"
  then have "(key, v) \<in> set (members l)" by (rule map_of_SomeD)
  then have "(key, v) \<in> set (property_order (members l))" by (simp add: property_order_set)
  then show ?thesis unfolding getOwnPropertyNames_def by force
qed

lemma run_tests_member:
  "(key, m) \<in> set c \<Longrightarrow> set (declareTestMethod m) \<subseteq> set (run_tests c)"
  by (force simp add: run_tests_def property_order_set)

subsection \<open>Classes whose ancestors declare no tests\<close>

lemma test_entry_key: "test_entry x = Some y \<Longrightarrow> fst y = fst x"
  by (cases x; cases "snd x") (auto split: if_splits)

lemma set_test_methods: "set (test_methods ms) = {y. \<exists>x \<in> set ms. test_entry x = Some y}"
  unfolding test_methods_def
  by (induction ms) (auto split: option.splits)

lemma no_test_methods:
  "test_methods ms = [] \<Longrightarrow> (k, Fn m) \<in> set ms \<Longrightarrow> \<not> truthy (nameSymbol m)"
proof
  assume e: "test_methods ms = []" and x: "(k, Fn m) \<in> set ms" and t: "truthy (nameSymbol m)"
  from x t have "(k, m) \<in> set (test_methods ms)" by (force simp add: set_test_methods)
  with e show False by simp
qed

lemma map_filter_cong_set:
  "(\<And>x. x \<in> set xs \<Longrightarrow> f x = g x) \<Longrightarrow> List.map_filter f xs = List.map_filter g xs"
proof (induction xs)
  case Nil
  show ?case by simp
next
  case (Cons a xs)
  have "f a = g a" using Cons.prems by simp
  moreover have "List.map_filter f xs = List.map_filter g xs" using Cons by simp
  ultimately show ?case by (simp split: option.splits)
qed

lemma map_filter_map_fst:
  "List.map_filter f (map fst xs) = List.map_filter (\<lambda>x. f (fst x)) xs"
  by (induction xs) (simp_all split: option.splits)

text \<open>The entry of an own key of the first level is decided by the own property.\<close>

lemma collect_entry_own:
  assumes "distinct (map fst (members l))"
      and "list_all (\<lambda>(key, m). \<not> List.member object_prototype_names key)
             (test_methods (members l))"
      and "x \<in> set (members l)"
  shows "collect_entry (l # rest) (fst x) = test_entry x"
proof (cases x)
  case (Pair k v)
  with assms(1,3) have m: "map_of (members l) k = Some v" by simp
  show ?thesis
  proof (cases "test_entry x")
    case None
    with Pair m show ?thesis
      by (cases v) (auto simp add: collect_entry_def split: if_splits)
  next
    case (Some y)
    with assms(3) have "y \<in> set (test_methods (members l))"
      by (auto simp add: set_test_methods)
    with assms(2) have "\<not> List.member object_prototype_names (fst y)"
      by (auto simp add: list_all_iff)
    moreover from Some have "fst y = k" using Pair by (auto dest: test_entry_key)
    ultimately show ?thesis using Pair m Some
      by (cases v) (auto simp add: collect_entry_def split: if_splits)
  qed
qed

lemma walk_first_level:
  assumes "distinct (map fst (members l))"
      and "list_all (\<lambda>(key, m). \<not> List.member object_prototype_names key)
             (test_methods (members l))"
  shows "fold (store_key (l # rest)) (getOwnPropertyNames l) []
         = property_order (test_methods (members l))"
proof -
  have d: "distinct (getOwnPropertyNames l)"
    using assms(1) by (simp add: getOwnPropertyNames_def property_order_distinct_keys)
  have "fold (store_key (l # rest)) (getOwnPropertyNames l) []
        = List.map_filter (collect_entry (l # rest)) (getOwnPropertyNames l)"
    using fold_store_key_exact [OF d, of "[]" "l # rest"] by simp
  also have "\<dots> = List.map_filter (\<lambda>x. collect_entry (l # rest) (fst x))
                    (property_order (members l))"
    by (simp add: getOwnPropertyNames_def map_filter_map_fst)
  also have "\<dots> = List.map_filter test_entry (property_order (members l))"
    by (rule map_filter_cong_set)
       (simp add: collect_entry_own [OF assms] property_order_set)
  also have "\<dots> = property_order (List.map_filter test_entry (members l))"
    by (rule property_order_map_filter) (rule test_entry_key)
  finally show ?thesis by (simp add: test_methods_def)
qed

text \<open>Levels without test methods add nothing to what the first level gave.\<close>

lemma proto_get_no_tests:
  "list_all (\<lambda>a. test_methods (members a) = []) ls \<Longrightarrow> proto_get ls k = Some (Fn m) \<Longrightarrow>
   \<not> truthy (nameSymbol m)"
proof (induction ls)
  case Nil
  then show ?case by simp
next
  case (Cons a ls)
  show ?case
  proof (cases "map_of (members a) k")
    case None
    with Cons show ?thesis by simp
  next
    case (Some v)
    with Cons.prems have "(k, Fn m) \<in> set (members a)" by (auto dest: map_of_SomeD)
    moreover from Cons.prems have "test_methods (members a) = []" by simp
    ultimately show ?thesis by (rule no_test_methods [rotated])
  qed
qed

lemma store_key_saturated:
  "(\<And>e. collect_entry P k = Some e \<Longrightarrow> k \<in> fst ` set acc) \<Longrightarrow> store_key P k acc = acc"
  by (cases "collect_entry P k") (simp_all add: store_key_def)

lemma fold_store_key_saturated:
  "(\<And>k e. collect_entry P k = Some e \<Longrightarrow> k \<in> fst ` set acc) \<Longrightarrow>
   fold (store_key P) ks acc = acc"
  by (induction ks) (simp_all add: store_key_saturated)

lemma walk_levels_saturated:
  "(\<And>k e. collect_entry P k = Some e \<Longrightarrow> k \<in> fst ` set acc) \<Longrightarrow>
   walk_levels P ls acc = acc"
  unfolding walk_levels_def
  by (induction ls) (simp_all add: fold_store_key_saturated)

lemma walk_own_tests_only:
  assumes "distinct (map fst (members l))"
      and "list_all (\<lambda>(key, m). \<not> List.member object_prototype_names key)
             (test_methods (members l))"
      and "list_all (\<lambda>a. test_methods (members a) = []) rest"
  shows "walk_levels (l # rest) (l # rest) [] = property_order (test_methods (members l))"
proof -
  let ?P = "l # rest"
  let ?acc = "fold (store_key ?P) (getOwnPropertyNames l) []"
  have sat: "k \<in> fst ` set ?acc" if e: "collect_entry ?P k = Some e" for k e
  proof (cases "map_of (members l) k")
    case None
    from e obtain m where "proto_get ?P k = Some (Fn m)" "truthy (nameSymbol m)"
      by (auto simp add: collect_entry_def split: option.splits property.splits if_splits)
    with None have "proto_get rest k = Some (Fn m)" "truthy (nameSymbol m)" by simp_all
    with proto_get_no_tests [OF assms(3)] show ?thesis by blast
  next
    case (Some v)
    then have "k \<in> set (getOwnPropertyNames l)"
      by (force simp add: getOwnPropertyNames_def property_order_set dest: map_of_SomeD)
    then show ?thesis using e by (rule fold_store_key_adds)
  qed
  have "walk_levels ?P ?P [] = walk_levels ?P rest ?acc" by (simp add: walk_levels_def)
  also have "\<dots> = ?acc" by (rule walk_levels_saturated) (rule sat)
  also have "\<dots> = property_order (test_methods (members l))"
    by (rule walk_first_level [OF assms(1,2)])
  finally show ?thesis .
qed

lemma run_tests_plain:
  "list_all (\<lambda>(key, m). parametersSymbol m = None) xs \<Longrightarrow>
   concat (map (\<lambda>(key, m). declareTestMethod m) xs) = map (\<lambda>(key, m). plain_test m) xs"
  by (induction xs)
     (auto simp add: declareTestMethod_def applyTestFunc_def plain_test_def Let_def)

lemma run_tests_property_order:
  assumes "list_all (\<lambda>(key, m). parametersSymbol m = None) xs"
  shows "run_tests (property_order xs) = map (\<lambda>(key, m). plain_test m) (property_order xs)"
proof -
  from assms have "list_all (\<lambda>(key, m). parametersSymbol m = None) (property_order xs)"
    by (simp add: list_all_iff property_order_set)
  then show ?thesis by (simp add: run_tests_def property_order_idem run_tests_plain)
qed

lemma hooks_not_tests:
  "filter is_test (register_static_before t) = []"
  "filter is_test register_setup = []"
  "filter is_test (register_before P) = []"
  "filter is_test (register_after P) = []"
  "filter is_test register_teardown = []"
  "filter is_test (fst (register_static_after t)) = []"
  by (simp_all add: register_static_before_def register_setup_def register_before_def
      register_after_def register_teardown_def register_static_after_def
      split: option.splits property.splits)

lemma plain_tests_not_internal:
  "filter is_setup (map (\<lambda>(key, m). plain_test m) xs) = []"
  "filter is_teardown (map (\<lambda>(key, m). plain_test m) xs) = []"
  by (induction xs) (auto simp add: plain_test_def)

lemma hooks_setup_count:
  "filter is_setup (register_static_before t) = []"
  "length (filter is_setup register_setup) = 1"
  "filter is_setup (register_before P) = []"
  "filter is_setup (register_after P) = []"
  "filter is_setup register_teardown = []"
  "filter is_setup (fst (register_static_after t)) = []"
  by (simp_all add: register_static_before_def register_setup_def register_before_def
      register_after_def register_teardown_def register_static_after_def
      split: option.splits property.splits)

lemma hooks_teardown_count:
  "filter is_teardown (register_static_before t) = []"
  "filter is_teardown register_setup = []"
  "filter is_teardown (register_before P) = []"
  "filter is_teardown (register_after P) = []"
  "length (filter is_teardown register_teardown) = 1"
  "filter is_teardown (fst (register_static_after t)) = []"
  by (simp_all add: register_static_before_def register_setup_def register_before_def
      register_after_def register_teardown_def register_static_after_def
      split: option.splits property.splits)

lemma plain_tests_are_tests:
  "filter is_test (map (\<lambda>(key, m). plain_test m) xs) = map (\<lambda>(key, m). plain_test m) xs"
  by (induction xs) (auto simp add: plain_test_def)

section \<open>Registration of the tests of a class\<close>

text \<open>
  C1, as stated, on \<^verbatim>\<open>@suite class Numbered { @test b() {} @test 1() {} }\<close>: the class
  declares \<open>b\<close> before \<open>1\<close>, and the test of \<open>1\<close> is registered before the test of
  \<open>b\<close>.
\<close>

theorem index_named_test_registered_first:
  "map fst (test_methods numbered_members) = [''b'', ''1'']
   \<and> suiteCallbackFromClass numbered_tests_class =
       ([RBeforeEach ''setup instance'' SetupInstance None,
         RTest (Some ''1'') (CallMethod (bare_test ''1'' 2 0) False []) None,
         RTest (Some ''b'') (CallMethod (bare_test ''b'' 1 0) False []) None,
         RAfterEach ''teardown instance'' TeardownInstance None],
        None)"
  by (simp add: test_methods_def example_defs decorator_defs order_defs callback_defs)

text \<open>
  A method whose key is the name of a member of \<^verbatim>\<open>Object.prototype\<close> is never
  collected, since \<^verbatim>\<open>collectedTests[key]\<close> finds the inherited member: on
  \<^verbatim>\<open>@suite class Shadowed { @test valueOf() {} @test real() {} }\<close> only \<open>real\<close> is
  registered.
\<close>

lemma test_named_valueOf_not_registered:
  "suiteCallbackFromClass shadowed_name_class =
     ([RBeforeEach ''setup instance'' SetupInstance None,
       RTest (Some ''real'') (CallMethod (bare_test ''real'' 2 0) False []) None,
       RAfterEach ''teardown instance'' TeardownInstance None],
      None)"
  by (simp add: example_defs decorator_defs order_defs callback_defs)

text \<open>
  A getter that throws when it is read on the prototype ends the registration at that
  read: on
  \<^verbatim>\<open>@suite class G { items; @test first() {} get count() { return this.items.length } @test t() {} }\<close>
  the callback registers \<open>setup instance\<close> and throws the exception of the getter, and no
  test is registered.
\<close>

lemma throwing_getter_ends_registration:
  "suiteCallbackFromClass getter_class =
     ([RBeforeEach ''setup instance'' SetupInstance None], Some (Thrown ''count''))"
  by (simp add: example_defs decorator_defs order_defs callback_defs)

text \<open>
  C1, amended. Take a class on which no read of the callback throws (the static
  \<^verbatim>\<open>before\<close> is not a getter that throws on the class, and no property of the prototypes
  of the chain is a getter that throws on the prototype), with no suite among its
  ancestors, whose ancestors declare no test methods, and whose own test methods (the own
  methods of the prototype, under a string key, that carry a non-empty test name) have no
  parameter sets and are not named like a member of
  \<^verbatim>\<open>Object.prototype\<close>. Its registration callback issues the hook registrations and,
  between them, one \<^verbatim>\<open>runner.test\<close> call per test method and no other test: as many
  tests as test methods, in the property order of the prototype, which lists the
  methods named by an array index first, in ascending numeric order, and then the other
  methods in the order of their declaration. So the tests are registered in the declared
  order when no test method is named by an array index. The callback issues the internal
  \<open>setup instance\<close> \<^verbatim>\<open>beforeEach\<close> once and the internal \<open>teardown instance\<close>
  \<^verbatim>\<open>afterEach\<close> once.
\<close>

theorem suite_registers_each_own_test:
  assumes "chain t = l # rest"
      and "\<not> list_ex suiteSymbol rest"
      and "list_all (\<lambda>a. test_methods (members a) = []) rest"
      and "distinct (map fst (members l))"
      and "list_all (\<lambda>(key, m). parametersSymbol m = None
                                \<and> \<not> List.member object_prototype_names key)
             (test_methods (members l))"
      and "static_before t \<noteq> Some Throws"
      and "no_throwing_getter (chain t)"
  shows "fst (suiteCallbackFromClass t) =
           register_static_before t @ register_setup @ register_before (chain t)
           @ map (\<lambda>(key, m). plain_test m) (property_order (test_methods (members l)))
           @ register_after (chain t) @ register_teardown @ fst (register_static_after t)
         \<and> filter is_test (fst (suiteCallbackFromClass t)) =
             map (\<lambda>(key, m). plain_test m) (property_order (test_methods (members l)))
         \<and> length (filter is_test (fst (suiteCallbackFromClass t)))
             = length (test_methods (members l))
         \<and> length (filter is_setup (fst (suiteCallbackFromClass t))) = 1
         \<and> length (filter is_teardown (fst (suiteCallbackFromClass t))) = 1
         \<and> (list_all (\<lambda>p. \<not> is_array_index (fst p)) (test_methods (members l)) \<longrightarrow>
              filter is_test (fst (suiteCallbackFromClass t)) =
                map (\<lambda>(key, m). plain_test m) (test_methods (members l)))"
proof -
  let ?tm = "test_methods (members l)"
  from assms(5) have np: "list_all (\<lambda>(key, m). parametersSymbol m = None) ?tm"
    and no: "list_all (\<lambda>(key, m). \<not> List.member object_prototype_names key) ?tm"
    by (auto simp add: list_all_iff)
  have w: "walk_levels (chain t) (chain t) [] = property_order ?tm"
    unfolding assms(1) by (rule walk_own_tests_only [OF assms(4) no assms(3)])
  have a: "\<not> list_ex suiteSymbol (tl (chain t))" using assms(1,2) by simp
  have tr: "fst (suiteCallbackFromClass t) =
           register_static_before t @ register_setup @ register_before (chain t)
           @ map (\<lambda>(key, m). plain_test m) (property_order ?tm)
           @ register_after (chain t) @ register_teardown @ fst (register_static_after t)"
    using callback_without_suite_ancestor [OF assms(6,7) a]
    by (simp add: w run_tests_property_order [OF np])
  have ft: "filter is_test (fst (suiteCallbackFromClass t)) =
             map (\<lambda>(key, m). plain_test m) (property_order ?tm)"
    unfolding tr by (simp add: hooks_not_tests plain_tests_are_tests)
  have st: "length (filter is_setup (fst (suiteCallbackFromClass t))) = 1"
    unfolding tr by (simp add: hooks_setup_count plain_tests_not_internal)
  have td: "length (filter is_teardown (fst (suiteCallbackFromClass t))) = 1"
    unfolding tr by (simp add: hooks_teardown_count plain_tests_not_internal)
  have ln: "length (filter is_test (fst (suiteCallbackFromClass t))) = length ?tm"
    using ft by (simp add: property_order_length)
  have dc: "list_all (\<lambda>p. \<not> is_array_index (fst p)) ?tm \<longrightarrow>
              filter is_test (fst (suiteCallbackFromClass t)) =
                map (\<lambda>(key, m). plain_test m) ?tm"
    using ft by (simp add: property_order_no_index)
  show ?thesis
    using tr ft ln st td dc by blast
qed

theorem suite_registers_each_own_test_witness:
  "fst (suiteCallbackFromClass two_tests_class) =
     [RBeforeEach ''setup instance'' SetupInstance None,
      RTest (Some ''one'') (CallMethod (bare_test ''one'' 4 0) False []) None,
      RTest (Some ''two'') (CallMethod timed_test True [])
        (Some \<lparr>slow = None, timeout = Some 1000, retries = None, execution = None\<rparr>),
      RAfterEach ''teardown instance'' TeardownInstance None]
   \<and> length (filter is_test (fst (suiteCallbackFromClass two_tests_class))) = 2
   \<and> length (filter is_setup (fst (suiteCallbackFromClass two_tests_class))) = 1
   \<and> length (filter is_teardown (fst (suiteCallbackFromClass two_tests_class))) = 1"
proof -
  have tm: "test_methods (members two_tests_level) =
              [(''one'', bare_test ''one'' 4 0), (''two'', timed_test)]"
    by (simp add: test_methods_def two_tests_level_def example_constructor_def bare_test_def
        timed_test_def decorator_defs)
  have c: "chain two_tests_class = two_tests_level # [server_level]"
    by (simp add: two_tests_class_def)
  have s: "\<not> list_ex suiteSymbol [server_level]" by (simp add: server_level_def)
  have n: "list_all (\<lambda>a. test_methods (members a) = []) [server_level]"
    by (simp add: test_methods_def server_level_def example_constructor_def plain_method_def)
  have d: "distinct (map fst (members two_tests_level))"
    by (simp add: two_tests_level_def example_constructor_def)
  have h: "list_all (\<lambda>(key, m). parametersSymbol m = None
                                \<and> \<not> List.member object_prototype_names key)
             (test_methods (members two_tests_level))"
    unfolding tm
    by (simp add: bare_test_def timed_test_def decorator_defs object_prototype_names_def)
  have po: "property_order [(''one'', bare_test ''one'' 4 0), (''two'', timed_test)]
            = [(''one'', bare_test ''one'' 4 0), (''two'', timed_test)]"
    by (simp add: order_defs)
  have pt: "plain_test (bare_test ''one'' 4 0) =
              RTest (Some ''one'') (CallMethod (bare_test ''one'' 4 0) False []) None"
    "plain_test timed_test =
       RTest (Some ''two'') (CallMethod timed_test True [])
         (Some \<lparr>slow = None, timeout = Some 1000, retries = None, execution = None\<rparr>)"
    by (simp_all add: plain_test_def bare_test_def timed_test_def decorator_defs isAsync_def
        getSettings_def)
  have sb: "static_before two_tests_class \<noteq> Some Throws"
    by (simp add: two_tests_class_def)
  have ng: "no_throwing_getter (chain two_tests_class)"
    by (simp add: no_throwing_getter_def two_tests_class_def two_tests_level_def
        server_level_def example_constructor_def)
  from suite_registers_each_own_test [OF c s n d h sb ng] show ?thesis
    unfolding tm po
    by (simp add: pt two_tests_class_def two_tests_level_def server_level_def
        register_static_before_def register_setup_def register_before_def
        register_after_def register_teardown_def register_static_after_def
        example_constructor_def)
qed

section \<open>Suites may not extend suites\<close>





section \<open>Settings of the static after hook\<close>

text \<open>
  C3. On a class whose static \<^verbatim>\<open>before\<close> carries \<^verbatim>\<open>@timeout(100)\<close> and whose static
  \<^verbatim>\<open>after\<close> carries \<^verbatim>\<open>@timeout(200)\<close>, the settings passed to \<^verbatim>\<open>runner.afterAll\<close> are
  those of the static \<^verbatim>\<open>before\<close> (timeout 100), not the ones read from the static
  \<^verbatim>\<open>after\<close> itself (timeout 200). Without a static \<^verbatim>\<open>before\<close> the registration of the
  static \<^verbatim>\<open>after\<close> throws a \<^verbatim>\<open>TypeError\<close> and \<^verbatim>\<open>runner.afterAll\<close> is not called.
\<close>

theorem static_after_gets_settings_of_static_before:
  "suiteCallbackFromClass static_hooks_class =
     ([RBeforeAll ''static before'' (CallStatic hooks_before False)
         (Some \<lparr>slow = None, timeout = Some 100, retries = None, execution = None\<rparr>),
       RBeforeEach ''setup instance'' SetupInstance None,
       RTest (Some ''t'') (CallMethod (bare_test ''t'' 3 0) False []) None,
       RAfterEach ''teardown instance'' TeardownInstance None,
       RAfterAll ''static after'' (CallStatic hooks_after False)
         (Some \<lparr>slow = None, timeout = Some 100, retries = None, execution = None\<rparr>)],
      None)
   \<and> getSettings hooks_after =
       Some \<lparr>slow = None, timeout = Some 200, retries = None, execution = None\<rparr>
   \<and> suiteCallbackFromClass static_after_only_class =
       ([RBeforeEach ''setup instance'' SetupInstance None,
         RTest (Some ''t'') (CallMethod (bare_test ''t'' 3 0) False []) None,
         RAfterEach ''teardown instance'' TeardownInstance None],
        Some TypeError)"
  by (simp add: example_defs decorator_defs order_defs callback_defs)

section \<open>Parameter sets\<close>

lemma decorate_Cons: "decorate (d # ds) key f = d key (decorate ds key f)"
  by (simp add: decorate_def)

lemma decorate_Nil: "decorate [] key f = f"
  by (simp add: decorate_def)

lemma decorate_params_fields:
  "fn_id (decorate (map params_decorator sets) key f) = fn_id f
   \<and> fn_length (decorate (map params_decorator sets) key f) = fn_length f
   \<and> nameForParametersSymbol (decorate (map params_decorator sets) key f)
       = nameForParametersSymbol f
   \<and> slowSymbol (decorate (map params_decorator sets) key f) = slowSymbol f
   \<and> timeoutSymbol (decorate (map params_decorator sets) key f) = timeoutSymbol f
   \<and> retriesSymbol (decorate (map params_decorator sets) key f) = retriesSymbol f
   \<and> executionSymbol (decorate (map params_decorator sets) key f) = executionSymbol f"
  by (induction sets)
     (simp_all add: decorate_Nil decorate_Cons params_decorator_def makeParamsFunction_def)

lemma decorate_params_parameters:
  "sets \<noteq> [] \<Longrightarrow>
   parametersSymbol (decorate (map params_decorator sets) key f) =
     Some ((case parametersSymbol f of None \<Rightarrow> [] | Some ps \<Rightarrow> ps) @ rev sets)
   \<and> nameSymbol (decorate (map params_decorator sets) key f) = Some key"
proof (induction sets)
  case Nil
  then show ?case by simp
next
  case (Cons po sets)
  show ?case
  proof (cases "sets = []")
    case True
    then show ?thesis
      by (simp add: decorate_Nil decorate_Cons params_decorator_def makeParamsFunction_def)
  next
    case False
    with Cons.IH show ?thesis
      by (simp add: decorate_Cons params_decorator_def makeParamsFunction_def)
  qed
qed

text \<open>
  C4, as stated, at \<^verbatim>\<open>@params("first") @params("second") run(value) {}\<close>: the test of
  index 0, named \<open>run_0\<close>, is the one of the lower annotation, \<open>second\<close>, and the
  upper annotation \<open>first\<close> comes last.
\<close>

theorem params_run_bottom_up:
  "declareTestMethod two_params_method =
     [RSuite (Some ''run'')
        [RTest (Some ''run_0'') (CallMethod two_params_method False [''second''])
           (Some \<lparr>slow = None, timeout = None, retries = None, execution = None\<rparr>),
         RTest (Some ''run_1'') (CallMethod two_params_method False [''first''])
           (Some \<lparr>slow = None, timeout = None, retries = None, execution = None\<rparr>)]
        None]"
  by (simp add: two_params_method_def decorator_defs declareTestMethod_def applyTestFunc_def
      parametersTestName_def isAsync_def getSettings_def string_of_nat_digits Let_def)

text \<open>
  C4, amended. For a method under one or more \<^verbatim>\<open>@params\<close> annotations, given by their
  parameter sets in the order of the source from top to bottom, the parameter list of
  the method is the reverse of that order, and the child suite registers its tests in
  that reversed order, which is also the order of the index of the fallback name: the
  annotation next to the method is test 0 and the topmost annotation is the last test.
\<close>

theorem params_registered_in_application_order:
  assumes "sets \<noteq> []"
  shows "parametersSymbol (decorate (map params_decorator sets) key (plain_method i n))
           = Some (rev sets)
         \<and> declareTestMethod (decorate (map params_decorator sets) key (plain_method i n)) =
             [RSuite (Some key)
                (map (\<lambda>(j, po).
                        RTest (Some (parametersTestName (Some key) None j po))
                          (CallMethod
                             (decorate (map params_decorator sets) key (plain_method i n))
                             (1 < n) [tp_params po])
                          (Some \<lparr>slow = None, timeout = None, retries = None,
                                 execution = tp_execution po\<rparr>))
                     (enumerate 0 (rev sets)))
                None]"
proof -
  let ?m = "decorate (map params_decorator sets) key (plain_method i n)"
  have p: "parametersSymbol ?m = Some (rev sets)" and nm: "nameSymbol ?m = Some key"
    using decorate_params_parameters [OF assms, of key "plain_method i n"]
    by (simp_all add: plain_method_def)
  have f: "fn_length ?m = n" "nameForParametersSymbol ?m = None" "getSettings ?m = None"
    using decorate_params_fields [of sets key "plain_method i n"]
    by (simp_all add: plain_method_def getSettings_def)
  show ?thesis
    by (simp add: declareTestMethod_def applyTestFunc_def isAsync_def p nm f Let_def)
qed

theorem params_registered_in_application_order_witness:
  "parametersSymbol two_params_method =
     Some [\<lparr>tp_execution = None, tp_name = None, tp_params = ''second''\<rparr>,
           \<lparr>tp_execution = None, tp_name = None, tp_params = ''first''\<rparr>]
   \<and> call_name (hd (declareTestMethod two_params_method)) = Some ''run''"
proof -
  let ?sets = "[\<lparr>tp_execution = None, tp_name = None, tp_params = ''first''\<rparr>,
                \<lparr>tp_execution = None, tp_name = None, tp_params = ''second''\<rparr>]"
  have h: "?sets \<noteq> []" by simp
  have m: "two_params_method = decorate (map params_decorator ?sets) ''run'' (plain_method 1 1)"
    by (simp add: two_params_method_def params_decorator_def)
  from params_registered_in_application_order [OF h, of "''run''" 1 1] show ?thesis
    by (simp add: m)
qed


section \<open>Decorators and the name metadata\<close>

text \<open>
  C5, as stated, at \<^verbatim>\<open>@params("value") @test("custom name") run(value) {}\<close>: the method
  carries the display name \<open>custom name\<close> when \<^verbatim>\<open>@params\<close> is applied, and
  \<^verbatim>\<open>@params\<close> replaces it by the property key.
\<close>

theorem params_overwrites_custom_name:
  "nameSymbol renamed_method = Some ''custom name''
   \<and> nameSymbol (makeParamsFunction None ''value'' None ''run'' renamed_method) = Some ''run''"
  by (simp add: renamed_method_def decorator_defs)

text \<open>
  C5, amended. The decorators \<^verbatim>\<open>@slow\<close>, \<^verbatim>\<open>@timeout\<close>, \<^verbatim>\<open>@retries\<close>, the execution
  modifiers (bare or with a condition) and \<^verbatim>\<open>@params.naming\<close> leave the display name of
  a method as it is. \<^verbatim>\<open>@params\<close> and the unnamed forms of \<^verbatim>\<open>@test\<close> always set it to
  the property key, whatever it was; \<^verbatim>\<open>@test("name")\<close> sets it to the given name.
\<close>

theorem decorators_and_display_name:
  "nameSymbol (createExecutionOption k v key f) = nameSymbol f
   \<and> nameSymbol (modifier_on_method e key f) = nameSymbol f
   \<and> nameSymbol (modifier_on_condition e c key f) = nameSymbol f
   \<and> nameSymbol (makeParamsNameFunction g key f) = nameSymbol f
   \<and> nameSymbol (makeParamsFunction x p n key f) = Some key
   \<and> nameSymbol (testProperty x key f) = Some key
   \<and> nameSymbol (testDecorator x [] key f) = Some key
   \<and> nameSymbol (testDecoratorNamed x name [] key f) = Some name"
  by (cases k; cases x) (simp_all add: decorator_defs)

section \<open>Settings of the lifecycle hooks\<close>

lemma static_before_in_callback:
  "static_before t = Some (Fn b) \<Longrightarrow>
   RBeforeAll ''static before'' (CallStatic b (isAsync b)) (getSettings b)
     \<in> set (fst (suiteCallbackFromClass t))"
  by (cases "collect_walk (chain t) (chain t) []")
     (simp_all add: suiteCallbackFromClass_def register_static_before_def Let_def)

lemma instance_before_in_callback:
  "proto_get (chain t) ''before'' = Some (Fn h) \<Longrightarrow> static_before t \<noteq> Some Throws \<Longrightarrow>
   RBeforeEach ''before'' (CallMethod h (isAsync h) []) (getSettings h)
     \<in> set (fst (suiteCallbackFromClass t))"
  by (cases "collect_walk (chain t) (chain t) []")
     (simp_all add: suiteCallbackFromClass_def register_before_def Let_def)

lemma instance_after_in_callback:
  "proto_get (chain t) ''after'' = Some (Fn a) \<Longrightarrow> \<not> list_ex suiteSymbol (tl (chain t)) \<Longrightarrow>
   static_before t \<noteq> Some Throws \<Longrightarrow> no_throwing_getter (chain t) \<Longrightarrow>
   RAfterEach ''after'' (CallMethod a (isAsync a) []) (getSettings a)
     \<in> set (fst (suiteCallbackFromClass t))"
  by (simp add: callback_without_suite_ancestor register_after_def)

lemma static_after_in_callback:
  "static_after t = Some (Fn a) \<Longrightarrow> static_before t = Some (Fn b) \<Longrightarrow>
   \<not> list_ex suiteSymbol (tl (chain t)) \<Longrightarrow> no_throwing_getter (chain t) \<Longrightarrow>
   RAfterAll ''static after'' (CallStatic a (isAsync a)) (getSettings b)
     \<in> set (fst (suiteCallbackFromClass t))"
  by (simp add: callback_without_suite_ancestor register_static_after_def)

lemma run_tests_calls:
  "c \<in> set (run_tests cs) \<Longrightarrow>
   (\<exists>n tests s. c = RSuite n tests s) \<or> (\<exists>n cb s. c = RTest n cb s)"
  by (auto simp add: run_tests_def declareTestMethod_def applyTestFunc_def Let_def
      split: option.splits)

lemma callback_calls_origin:
  "c \<in> set (fst (suiteCallbackFromClass t)) \<Longrightarrow>
   c \<in> set (register_static_before t) \<or> c \<in> set register_setup
   \<or> c \<in> set (register_before (chain t)) \<or> (\<exists>cs. c \<in> set (run_tests cs))
   \<or> c \<in> set (register_after (chain t)) \<or> c \<in> set register_teardown
   \<or> c \<in> set (fst (register_static_after t))"
  by (auto simp add: suiteCallbackFromClass_def Let_def split: if_splits sum.splits)

lemma static_before_settings:
  assumes "RBeforeAll n cb s \<in> set (fst (suiteCallbackFromClass t))"
  shows "\<exists>b. static_before t = Some (Fn b) \<and> n = ''static before''
           \<and> cb = CallStatic b (isAsync b) \<and> s = getSettings b"
  using callback_calls_origin [OF assms]
  by (auto simp add: register_static_before_def register_setup_def register_before_def
      register_after_def register_teardown_def register_static_after_def
      split: option.splits property.splits dest!: run_tests_calls)

lemma instance_before_settings:
  assumes "RBeforeEach ''before'' cb s \<in> set (fst (suiteCallbackFromClass t))"
  shows "\<exists>h. proto_get (chain t) ''before'' = Some (Fn h)
           \<and> cb = CallMethod h (isAsync h) [] \<and> s = getSettings h"
  using callback_calls_origin [OF assms]
  by (auto simp add: register_static_before_def register_setup_def register_before_def
      register_after_def register_teardown_def register_static_after_def
      split: option.splits property.splits dest!: run_tests_calls)

lemma instance_after_settings:
  assumes "RAfterEach ''after'' cb s \<in> set (fst (suiteCallbackFromClass t))"
  shows "\<exists>a. proto_get (chain t) ''after'' = Some (Fn a)
           \<and> cb = CallMethod a (isAsync a) [] \<and> s = getSettings a"
  using callback_calls_origin [OF assms]
  by (auto simp add: register_static_before_def register_setup_def register_before_def
      register_after_def register_teardown_def register_static_after_def
      split: option.splits property.splits dest!: run_tests_calls)

text \<open>
  C6, as stated, on the class \<open>Retrying\<close>, whose instance \<^verbatim>\<open>before\<close> hook carries
  \<^verbatim>\<open>@retries(3)\<close> and \<^verbatim>\<open>@skip\<close>: the settings object passed to \<^verbatim>\<open>runner.beforeEach\<close>
  for the hook holds \<open>retries = 3\<close> and the execution mode \<open>skip\<close>.
\<close>

theorem hook_settings_hold_retries_and_execution:
  "fst (suiteCallbackFromClass retrying_hook_class) =
     [RBeforeAll ''static before'' (CallStatic hooks_before False)
        (Some \<lparr>slow = None, timeout = Some 100, retries = None, execution = None\<rparr>),
      RBeforeEach ''setup instance'' SetupInstance None,
      RBeforeEach ''before'' (CallMethod retrying_before False [])
        (Some \<lparr>slow = None, timeout = None, retries = Some 3, execution = Some Skip\<rparr>),
      RTest (Some ''t'') (CallMethod (bare_test ''t'' 3 0) False []) None,
      RAfterEach ''after'' (CallMethod timed_after True [])
        (Some \<lparr>slow = None, timeout = Some 50, retries = None, execution = None\<rparr>),
      RAfterEach ''teardown instance'' TeardownInstance None,
      RAfterAll ''static after'' (CallStatic hooks_after False)
        (Some \<lparr>slow = None, timeout = Some 100, retries = None, execution = None\<rparr>)]"
  by (simp add: example_defs decorator_defs order_defs callback_defs)

text \<open>
  C6, amended. The static \<^verbatim>\<open>before\<close> hook, the instance \<^verbatim>\<open>before\<close> hook and the instance
  \<^verbatim>\<open>after\<close> hook are registered with the settings that \<^verbatim>\<open>getSettings\<close> reads from the
  hook method itself. These settings are \<^verbatim>\<open>undefined\<close> when none of slow, timeout,
  retries and execution is attached to the method, and otherwise an object that holds
  each of the four exactly when it is attached: retries and the execution mode are
  forwarded like the two timing fields. A hook is registered when the callback reaches its
  registration: the static \<^verbatim>\<open>before\<close> always, the instance \<^verbatim>\<open>before\<close> when the read of
  the static \<^verbatim>\<open>before\<close> does not throw, the instance \<^verbatim>\<open>after\<close> when moreover no ancestor
  is a suite and no getter of the prototypes throws. Conversely, every
  \<^verbatim>\<open>runner.beforeAll\<close> call, every \<^verbatim>\<open>runner.beforeEach\<close> call named \<open>before\<close> and every
  \<^verbatim>\<open>runner.afterEach\<close> call named \<open>after\<close> that the callback issues is the registration
  of the hook of the class and carries the settings read from that hook. (The static
  \<^verbatim>\<open>after\<close> hook is left out: C3.)
\<close>

theorem hook_settings_read_by_getSettings:
  "(static_before t = Some (Fn b) \<longrightarrow>
      RBeforeAll ''static before'' (CallStatic b (isAsync b)) (getSettings b)
        \<in> set (fst (suiteCallbackFromClass t)))
   \<and> (proto_get (chain t) ''before'' = Some (Fn h) \<and> static_before t \<noteq> Some Throws \<longrightarrow>
      RBeforeEach ''before'' (CallMethod h (isAsync h) []) (getSettings h)
        \<in> set (fst (suiteCallbackFromClass t)))
   \<and> (proto_get (chain t) ''after'' = Some (Fn a) \<and> \<not> list_ex suiteSymbol (tl (chain t))
       \<and> static_before t \<noteq> Some Throws \<and> no_throwing_getter (chain t) \<longrightarrow>
      RAfterEach ''after'' (CallMethod a (isAsync a) []) (getSettings a)
        \<in> set (fst (suiteCallbackFromClass t)))
   \<and> (getSettings f = None) =
       (slowSymbol f = None \<and> timeoutSymbol f = None \<and> retriesSymbol f = None
        \<and> executionSymbol f = None)
   \<and> (getSettings f = Some s \<longrightarrow>
        slow s = slowSymbol f \<and> timeout s = timeoutSymbol f
        \<and> retries s = retriesSymbol f \<and> execution s = executionSymbol f)
   \<and> (RBeforeAll n cb1 s1 \<in> set (fst (suiteCallbackFromClass t)) \<longrightarrow>
        (\<exists>sb. static_before t = Some (Fn sb) \<and> n = ''static before''
              \<and> cb1 = CallStatic sb (isAsync sb) \<and> s1 = getSettings sb))
   \<and> (RBeforeEach ''before'' cb2 s2 \<in> set (fst (suiteCallbackFromClass t)) \<longrightarrow>
        (\<exists>ib. proto_get (chain t) ''before'' = Some (Fn ib)
              \<and> cb2 = CallMethod ib (isAsync ib) [] \<and> s2 = getSettings ib))
   \<and> (RAfterEach ''after'' cb3 s3 \<in> set (fst (suiteCallbackFromClass t)) \<longrightarrow>
        (\<exists>ia. proto_get (chain t) ''after'' = Some (Fn ia)
              \<and> cb3 = CallMethod ia (isAsync ia) [] \<and> s3 = getSettings ia))"
proof -
  have c1: "static_before t = Some (Fn b) \<longrightarrow>
      RBeforeAll ''static before'' (CallStatic b (isAsync b)) (getSettings b)
        \<in> set (fst (suiteCallbackFromClass t))"
    using static_before_in_callback [of t b] by blast
  have c2: "proto_get (chain t) ''before'' = Some (Fn h) \<and> static_before t \<noteq> Some Throws \<longrightarrow>
      RBeforeEach ''before'' (CallMethod h (isAsync h) []) (getSettings h)
        \<in> set (fst (suiteCallbackFromClass t))"
    using instance_before_in_callback [of t h] by blast
  have c3: "proto_get (chain t) ''after'' = Some (Fn a) \<and> \<not> list_ex suiteSymbol (tl (chain t))
       \<and> static_before t \<noteq> Some Throws \<and> no_throwing_getter (chain t) \<longrightarrow>
      RAfterEach ''after'' (CallMethod a (isAsync a) []) (getSettings a)
        \<in> set (fst (suiteCallbackFromClass t))"
    using instance_after_in_callback [of t a] by blast
  have c4: "(getSettings f = None) =
       (slowSymbol f = None \<and> timeoutSymbol f = None \<and> retriesSymbol f = None
        \<and> executionSymbol f = None)"
    by (simp add: getSettings_def)
  have c5: "getSettings f = Some s \<longrightarrow>
        slow s = slowSymbol f \<and> timeout s = timeoutSymbol f
        \<and> retries s = retriesSymbol f \<and> execution s = executionSymbol f"
    by (auto simp add: getSettings_def split: if_splits)
  have c6: "RBeforeAll n cb1 s1 \<in> set (fst (suiteCallbackFromClass t)) \<longrightarrow>
        (\<exists>sb. static_before t = Some (Fn sb) \<and> n = ''static before''
              \<and> cb1 = CallStatic sb (isAsync sb) \<and> s1 = getSettings sb)"
    using static_before_settings [of n cb1 s1 t] by blast
  have c7: "RBeforeEach ''before'' cb2 s2 \<in> set (fst (suiteCallbackFromClass t)) \<longrightarrow>
        (\<exists>ib. proto_get (chain t) ''before'' = Some (Fn ib)
              \<and> cb2 = CallMethod ib (isAsync ib) [] \<and> s2 = getSettings ib)"
    using instance_before_settings [of cb2 s2 t] by blast
  have c8: "RAfterEach ''after'' cb3 s3 \<in> set (fst (suiteCallbackFromClass t)) \<longrightarrow>
        (\<exists>ia. proto_get (chain t) ''after'' = Some (Fn ia)
              \<and> cb3 = CallMethod ia (isAsync ia) [] \<and> s3 = getSettings ia)"
    using instance_after_settings [of cb3 s3 t] by blast
  show ?thesis
    by (rule conjI, rule c1, rule conjI, rule c2, rule conjI, rule c3, rule conjI, rule c4,
        rule conjI, rule c5, rule conjI, rule c6, rule conjI, rule c7, rule c8)
qed

theorem hook_settings_read_by_getSettings_witness:
  "RBeforeAll ''static before'' (CallStatic hooks_before False)
      (Some \<lparr>slow = None, timeout = Some 100, retries = None, execution = None\<rparr>)
     \<in> set (fst (suiteCallbackFromClass retrying_hook_class))
   \<and> RBeforeEach ''before'' (CallMethod retrying_before False [])
      (Some \<lparr>slow = None, timeout = None, retries = Some 3, execution = Some Skip\<rparr>)
     \<in> set (fst (suiteCallbackFromClass retrying_hook_class))
   \<and> RAfterEach ''after'' (CallMethod timed_after True [])
      (Some \<lparr>slow = None, timeout = Some 50, retries = None, execution = None\<rparr>)
     \<in> set (fst (suiteCallbackFromClass retrying_hook_class))
   \<and> getSettings (plain_method 1 0 :: string func) = None
   \<and> (\<exists>ib. proto_get (chain retrying_hook_class) ''before'' = Some (Fn ib)
          \<and> getSettings ib =
              Some \<lparr>slow = None, timeout = None, retries = Some 3, execution = Some Skip\<rparr>)"
proof -
  let ?s = "\<lparr>slow = None, timeout = None, retries = Some 3, execution = Some Skip\<rparr>"
  have 1: "static_before retrying_hook_class = Some (Fn hooks_before)"
    by (simp add: retrying_hook_class_def)
  have 6: "no_throwing_getter (chain retrying_hook_class)"
    by (simp add: no_throwing_getter_def retrying_hook_class_def example_constructor_def)
  have 2: "proto_get (chain retrying_hook_class) ''before'' = Some (Fn retrying_before)"
    by (simp add: retrying_hook_class_def example_constructor_def)
  have 3: "proto_get (chain retrying_hook_class) ''after'' = Some (Fn timed_after)"
    by (simp add: retrying_hook_class_def example_constructor_def)
  have 4: "\<not> list_ex suiteSymbol (tl (chain retrying_hook_class))"
    by (simp add: retrying_hook_class_def)
  have 5: "getSettings hooks_before =
             Some \<lparr>slow = None, timeout = Some 100, retries = None, execution = None\<rparr>"
    "getSettings retrying_before = Some ?s"
    "getSettings timed_after =
       Some \<lparr>slow = None, timeout = Some 50, retries = None, execution = None\<rparr>"
    "isAsync hooks_before = False" "isAsync retrying_before = False"
    "isAsync timed_after = True"
    by (simp_all add: hooks_before_def retrying_before_def timed_after_def decorator_defs
        getSettings_def isAsync_def)
  have 7: "getSettings (plain_method 1 0 :: string func) = None"
    by (simp add: getSettings_def plain_method_def)
  note inst = hook_settings_read_by_getSettings
         [of retrying_hook_class hooks_before retrying_before timed_after
             "plain_method 1 0" ?s "''static before''" "CallStatic hooks_before False"
             "Some \<lparr>slow = None, timeout = Some 100, retries = None, execution = None\<rparr>"
             "CallMethod retrying_before False []" "Some ?s"
             "CallMethod timed_after True []"
             "Some \<lparr>slow = None, timeout = Some 50, retries = None, execution = None\<rparr>"]
  note i1 = inst [THEN conjunct1]
  note i2 = inst [THEN conjunct2, THEN conjunct1]
  note i3 = inst [THEN conjunct2, THEN conjunct2, THEN conjunct1]
  note i7 = inst [THEN conjunct2, THEN conjunct2, THEN conjunct2, THEN conjunct2,
                  THEN conjunct2, THEN conjunct2, THEN conjunct1]
  from i1 1 have "RBeforeAll ''static before'' (CallStatic hooks_before (isAsync hooks_before))
      (getSettings hooks_before) \<in> set (fst (suiteCallbackFromClass retrying_hook_class))"
    by (rule mp)
  then have a: "RBeforeAll ''static before'' (CallStatic hooks_before False)
      (Some \<lparr>slow = None, timeout = Some 100, retries = None, execution = None\<rparr>)
     \<in> set (fst (suiteCallbackFromClass retrying_hook_class))"
    by (simp add: 5)
  from 1 have 8: "static_before retrying_hook_class \<noteq> Some Throws" by simp
  from 2 8 have p2: "proto_get (chain retrying_hook_class) ''before'' = Some (Fn retrying_before)
                     \<and> static_before retrying_hook_class \<noteq> Some Throws"
    by (rule conjI)
  from i2 p2 have "RBeforeEach ''before''
      (CallMethod retrying_before (isAsync retrying_before) []) (getSettings retrying_before)
     \<in> set (fst (suiteCallbackFromClass retrying_hook_class))"
    by (rule mp)
  then have b: "RBeforeEach ''before'' (CallMethod retrying_before False []) (Some ?s)
     \<in> set (fst (suiteCallbackFromClass retrying_hook_class))"
    by (simp add: 5)
  from 3 4 8 6 have p3: "proto_get (chain retrying_hook_class) ''after'' = Some (Fn timed_after)
                     \<and> \<not> list_ex suiteSymbol (tl (chain retrying_hook_class))
                     \<and> static_before retrying_hook_class \<noteq> Some Throws
                     \<and> no_throwing_getter (chain retrying_hook_class)"
    by (intro conjI)
  from i3 p3 have "RAfterEach ''after''
      (CallMethod timed_after (isAsync timed_after) []) (getSettings timed_after)
     \<in> set (fst (suiteCallbackFromClass retrying_hook_class))"
    by (rule mp)
  then have c: "RAfterEach ''after'' (CallMethod timed_after True [])
      (Some \<lparr>slow = None, timeout = Some 50, retries = None, execution = None\<rparr>)
     \<in> set (fst (suiteCallbackFromClass retrying_hook_class))"
    by (simp add: 5)
  from i7 b have "\<exists>ib. proto_get (chain retrying_hook_class) ''before'' = Some (Fn ib)
          \<and> CallMethod retrying_before False [] = CallMethod ib (isAsync ib) []
          \<and> Some ?s = getSettings ib"
    by (rule mp)
  then have d: "\<exists>ib. proto_get (chain retrying_hook_class) ''before'' = Some (Fn ib)
          \<and> getSettings ib = Some ?s"
    by metis
  from a b c 7 d show ?thesis by blast
qed

section \<open>Parameterised methods\<close>

lemma parametersTestName_priority:
  "(tp_name po = Some n \<and> n \<noteq> [] \<longrightarrow> parametersTestName tn nf i po = n)
   \<and> (\<not> truthy (tp_name po) \<longrightarrow> parametersTestName tn (Some g) i po = g (tp_params po))
   \<and> (\<not> truthy (tp_name po) \<longrightarrow>
        parametersTestName tn None i po = template_string tn @ ''_'' @ string_of_nat i)"
  by (cases "tp_name po") (simp_all add: parametersTestName_def)

lemma proto_get_first_owner:
  "list_all (\<lambda>a. map_of (members a) key = None) pre \<Longrightarrow>
   map_of (members l) key = Some v \<Longrightarrow> proto_get (pre @ l # post) key = Some v"
  by (induction pre) simp_all

text \<open>
  C7, as stated, on \<^verbatim>\<open>@suite class Cases extends Base { @params("x") run(value) {} }\<close>
  with \<^verbatim>\<open>@suite("Base") class Base {}\<close>: the method \<open>run\<close> has one parameter set, and the
  registration of the suite throws the configuration error after \<open>setup instance\<close>,
  without a \<^verbatim>\<open>runner.suite\<close> call. And on
  \<^verbatim>\<open>@suite class ShadowedParams { @params("x") valueOf(value) {} }\<close>: the method
  \<open>valueOf\<close> has one parameter set, and the registration of the suite issues the two
  internal hooks only.
\<close>

theorem parameterised_method_not_registered:
  "parametersSymbol derived_params_method =
     Some [\<lparr>tp_execution = None, tp_name = None, tp_params = ''x''\<rparr>]
   \<and> suiteCallbackFromClass derived_params_class =
       ([RBeforeEach ''setup instance'' SetupInstance None],
        Some (Error ''@suite Cases cannot be a subclass of @suite Base.''))
   \<and> parametersSymbol shadowed_params_method =
       Some [\<lparr>tp_execution = None, tp_name = None, tp_params = ''x''\<rparr>]
   \<and> suiteCallbackFromClass shadowed_params_class =
       ([RBeforeEach ''setup instance'' SetupInstance None,
         RAfterEach ''teardown instance'' TeardownInstance None],
        None)"
  by (simp add: example_defs decorator_defs order_defs callback_defs)

text \<open>
  C7, amended. Take a method \<open>m\<close> with \<open>K\<close> parameter sets and a truthy display name,
  which a read of its key on the prototype of a class gives: the key is not the name of
  a member of \<^verbatim>\<open>Object.prototype\<close>, and the first level of the chain that has the key
  among its own properties holds \<open>m\<close> there. Let no ancestor of the class be a suite
  and let no read of the callback throw (the static \<^verbatim>\<open>before\<close> is not a getter
  that throws on the class, and no property of the prototypes of the chain is a getter
  that throws on the prototype). Then the walk collects one entry for the key, which
  holds \<open>m\<close>; the calls of the registration callback are the hook registrations and,
  between them, the registrations of the collected entries; and the registration of \<open>m\<close>
  is one \<^verbatim>\<open>runner.suite\<close> call under the display name of the method, among the calls of
  the callback, whose own callback issues \<open>K\<close> \<^verbatim>\<open>runner.test\<close> calls, one per parameter
  set in the order of the list. The name of each test is the name of its parameter set
  when the set has one (a non-empty string); otherwise the result of the naming function
  on the value of the set when the method has a naming function; otherwise the display
  name, an underscore and the index.
\<close>

theorem parameterised_method_child_suite:
  assumes "parametersSymbol m = Some ps"
      and "truthy (nameSymbol m)"
      and "chain t = pre @ l # post"
      and "list_all (\<lambda>a. map_of (members a) key = None) pre"
      and "map_of (members l) key = Some (Fn m)"
      and "\<not> List.member object_prototype_names key"
      and "\<not> list_ex suiteSymbol (tl (chain t))"
      and "static_before t \<noteq> Some Throws"
      and "no_throwing_getter (chain t)"
  shows "(\<exists>tests. declareTestMethod m = [RSuite (nameSymbol m) tests (getSettings m)]
            \<and> length tests = length ps
            \<and> tests =
                map (\<lambda>(i, po).
                       RTest (Some (parametersTestName (nameSymbol m)
                                      (nameForParametersSymbol m) i po))
                         (CallMethod m (isAsync m) [tp_params po])
                         (Some \<lparr>slow = None, timeout = None, retries = None,
                                execution = tp_execution po\<rparr>))
                    (enumerate 0 ps)
            \<and> RSuite (nameSymbol m) tests (getSettings m)
                \<in> set (fst (suiteCallbackFromClass t)))
         \<and> (\<exists>c. collect_walk (chain t) (chain t) [] = Inr c
              \<and> filter (\<lambda>e. fst e = key) (property_order c) = [(key, m)]
              \<and> fst (suiteCallbackFromClass t) =
                  register_static_before t @ register_setup @ register_before (chain t)
                  @ concat (map (\<lambda>(key, method). declareTestMethod method) (property_order c))
                  @ register_after (chain t) @ register_teardown
                  @ fst (register_static_after t))
         \<and> (tp_name po = Some n \<and> n \<noteq> [] \<longrightarrow> parametersTestName tn nf i po = n)
         \<and> (\<not> truthy (tp_name po) \<longrightarrow>
              parametersTestName tn (Some g) i po = g (tp_params po))
         \<and> (\<not> truthy (tp_name po) \<longrightarrow>
              parametersTestName tn None i po
                = template_string tn @ ''_'' @ string_of_nat i)"
proof -
  let ?P = "chain t"
  let ?c = "walk_levels ?P ?P []"
  let ?tests = "map (\<lambda>(i, po).
                       RTest (Some (parametersTestName (nameSymbol m)
                                      (nameForParametersSymbol m) i po))
                         (CallMethod m (isAsync m) [tp_params po])
                         (Some \<lparr>slow = None, timeout = None, retries = None,
                                execution = tp_execution po\<rparr>))
                    (enumerate 0 ps)"
  have s: "proto_get ?P k \<noteq> Some Throws" for k by (rule proto_get_safe [OF assms(9)])
  have w: "collect_walk ?P ?P [] = Inr ?c" by (rule collect_walk_no_suite [OF s assms(7)])
  have "proto_get ?P key = Some (Fn m)"
    unfolding assms(3) by (rule proto_get_first_owner [OF assms(4,5)])
  then have e: "collect_entry ?P key = Some (key, m)"
    using assms(2,6) by (simp add: collect_entry_def)
  have l: "l \<in> set ?P" using assms(3) by simp
  have k: "key \<in> set (getOwnPropertyNames l)" by (rule own_key_listed [OF assms(5)])
  from walk_levels_entry [OF l k e]
  have mem: "(key, m) \<in> set ?c" and f: "filter (\<lambda>x. fst x = key) ?c = [(key, m)]"
    by simp_all
  have 1: "filter (\<lambda>e. fst e = key) (property_order ?c) = [(key, m)]"
    by (simp add: property_order_filter f property_order_single)
  have 2: "declareTestMethod m = [RSuite (nameSymbol m) ?tests (getSettings m)]"
    using assms(1) by (simp add: declareTestMethod_def applyTestFunc_def Let_def)
  have 3: "length ?tests = length ps" by simp
  have tr: "fst (suiteCallbackFromClass t) =
              register_static_before t @ register_setup @ register_before ?P
              @ concat (map (\<lambda>(key, method). declareTestMethod method) (property_order ?c))
              @ register_after ?P @ register_teardown @ fst (register_static_after t)"
    by (simp add: callback_without_suite_ancestor [OF assms(8,9,7)] run_tests_def)
  have "RSuite (nameSymbol m) ?tests (getSettings m) \<in> set (run_tests ?c)"
    using run_tests_member [OF mem] 2 by simp
  then have 4: "RSuite (nameSymbol m) ?tests (getSettings m)
                  \<in> set (fst (suiteCallbackFromClass t))"
    by (simp add: callback_without_suite_ancestor [OF assms(8,9,7)])
  have 5: "\<exists>tests. declareTestMethod m = [RSuite (nameSymbol m) tests (getSettings m)]
            \<and> length tests = length ps
            \<and> tests = ?tests
            \<and> RSuite (nameSymbol m) tests (getSettings m)
                \<in> set (fst (suiteCallbackFromClass t))"
    using 2 3 4 by blast
  have 6: "\<exists>c. collect_walk ?P ?P [] = Inr c
              \<and> filter (\<lambda>e. fst e = key) (property_order c) = [(key, m)]
              \<and> fst (suiteCallbackFromClass t) =
                  register_static_before t @ register_setup @ register_before ?P
                  @ concat (map (\<lambda>(key, method). declareTestMethod method) (property_order c))
                  @ register_after ?P @ register_teardown
                  @ fst (register_static_after t)"
    using w 1 tr by blast
  from 5 6 parametersTestName_priority [of po n tn nf i g] show ?thesis by blast
qed

theorem parameterised_method_child_suite_witness:
  "declareTestMethod function_named_method =
     [RSuite (Some ''run'')
        [RTest (Some ''named set'') (CallMethod function_named_method True [''a''])
           (Some \<lparr>slow = None, timeout = None, retries = None, execution = None\<rparr>),
         RTest (Some ''with b'') (CallMethod function_named_method True [''b''])
           (Some \<lparr>slow = None, timeout = None, retries = None, execution = Some Skip\<rparr>),
         RTest (Some ''with c'') (CallMethod function_named_method True [''c''])
           (Some \<lparr>slow = None, timeout = None, retries = None, execution = None\<rparr>)]
        None]
   \<and> parametersTestName (Some ''run'') None 1 (three_sets ! 1) = ''run_1''
   \<and> set (declareTestMethod function_named_method)
       \<subseteq> set (fst (suiteCallbackFromClass parameterised_class))"
proof -
  let ?l = "\<lparr>ctor_name = ''Parameterised'', suiteSymbol = True,
             members = [example_constructor, (''run'', Fn function_named_method)]\<rparr>"
  have p: "parametersSymbol function_named_method = Some three_sets"
    by (simp add: function_named_method_def fallback_named_method_def)
  have f: "nameSymbol function_named_method = Some ''run''"
    "nameForParametersSymbol function_named_method = Some (\<lambda>p. ''with '' @ p)"
    "getSettings function_named_method = None" "isAsync function_named_method = True"
    by (simp_all add: function_named_method_def fallback_named_method_def plain_method_def
        getSettings_def isAsync_def)
  have tn: "truthy (nameSymbol function_named_method)" by (simp add: f)
  have t: "\<not> truthy (tp_name (three_sets ! 1))" by (simp add: three_sets_def)
  have c: "chain parameterised_class = [] @ ?l # []"
    by (simp add: parameterised_class_def)
  have pre: "list_all (\<lambda>a. map_of (members a) ''run'' = None) ([] :: string level list)"
    by simp
  have own: "map_of (members ?l) ''run'' = Some (Fn function_named_method)"
    by (simp add: example_constructor_def)
  have nm: "\<not> List.member object_prototype_names ''run''"
    by (simp add: object_prototype_names_def)
  have ns: "\<not> list_ex suiteSymbol (tl (chain parameterised_class))"
    by (simp add: parameterised_class_def)
  have sb: "static_before parameterised_class \<noteq> Some Throws"
    by (simp add: parameterised_class_def)
  have ng: "no_throwing_getter (chain parameterised_class)"
    by (simp add: no_throwing_getter_def parameterised_class_def example_constructor_def)
  note inst = parameterised_method_child_suite
         [OF p tn c pre own nm ns sb ng, of "three_sets ! 1" "''x''" "Some ''run''" None 1
            "\<lambda>p. ''with '' @ p"]
  from inst obtain tests where
    d: "declareTestMethod function_named_method =
          [RSuite (nameSymbol function_named_method) tests (getSettings function_named_method)]"
    and ts: "tests =
                map (\<lambda>(i, po).
                       RTest (Some (parametersTestName (nameSymbol function_named_method)
                                      (nameForParametersSymbol function_named_method) i po))
                         (CallMethod function_named_method (isAsync function_named_method)
                            [tp_params po])
                         (Some \<lparr>slow = None, timeout = None, retries = None,
                                execution = tp_execution po\<rparr>))
                    (enumerate 0 three_sets)"
    and r: "RSuite (nameSymbol function_named_method) tests (getSettings function_named_method)
              \<in> set (fst (suiteCallbackFromClass parameterised_class))"
    by blast
  from d ts have 1: "declareTestMethod function_named_method =
     [RSuite (Some ''run'')
        [RTest (Some ''named set'') (CallMethod function_named_method True [''a''])
           (Some \<lparr>slow = None, timeout = None, retries = None, execution = None\<rparr>),
         RTest (Some ''with b'') (CallMethod function_named_method True [''b''])
           (Some \<lparr>slow = None, timeout = None, retries = None, execution = Some Skip\<rparr>),
         RTest (Some ''with c'') (CallMethod function_named_method True [''c''])
           (Some \<lparr>slow = None, timeout = None, retries = None, execution = None\<rparr>)]
        None]"
    by (simp add: f three_sets_def parametersTestName_def)
  from inst t have 2: "parametersTestName (Some ''run'') None 1 (three_sets ! 1) = ''run_1''"
    by (simp add: string_of_nat_digits)
  from d r have 3: "set (declareTestMethod function_named_method)
                        \<subseteq> set (fst (suiteCallbackFromClass parameterised_class))"
    by simp
  from 1 2 3 show ?thesis by blast
qed

lemma fallback_names_evaluated:
  "map call_name (case declareTestMethod fallback_named_method of
                    [RSuite n tests s] \<Rightarrow> tests | _ \<Rightarrow> []) =
     [Some ''named set'', Some ''run_1'', Some ''run_2'']"
  by (simp add: fallback_named_method_def three_sets_def plain_method_def
      declareTestMethod_def applyTestFunc_def parametersTestName_def Let_def
      string_of_nat_digits)

section \<open>Asynchronous methods\<close>

text \<open>
  C8. A method is registered as asynchronous, with a callback that takes the completion
  callback, exactly when its declared number of parameters exceeds the number of
  parameter values it is called with: none for a test without parameter sets and for a
  hook without parameter sets, one for each test of a method with parameter sets.
\<close>

theorem async_by_declared_parameters:
  "isAsync f = ((if parametersSymbol f = None then 0 else 1) < fn_length f)
   \<and> (parametersSymbol m = None \<longrightarrow>
        declareTestMethod m =
          [RTest (nameSymbol m) (CallMethod m (length ([] :: 'p list) < fn_length m) [])
             (getSettings m)])
   \<and> (parametersSymbol pm = Some ps \<longrightarrow>
        declareTestMethod pm =
          [RSuite (nameSymbol pm)
             (map (\<lambda>(i, po).
                     RTest (Some (parametersTestName (nameSymbol pm)
                                    (nameForParametersSymbol pm) i po))
                       (CallMethod pm (length [tp_params po] < fn_length pm) [tp_params po])
                       (Some \<lparr>slow = None, timeout = None, retries = None,
                              execution = tp_execution po\<rparr>))
                  (enumerate 0 ps))
             (getSettings pm)])
   \<and> (static_before t = Some (Fn sb) \<and> parametersSymbol sb = None \<longrightarrow>
        register_static_before t =
          [RBeforeAll ''static before'' (CallStatic sb (0 < fn_length sb)) (getSettings sb)])
   \<and> (proto_get (chain t) ''before'' = Some (Fn b) \<and> parametersSymbol b = None \<longrightarrow>
        register_before (chain t) =
          [RBeforeEach ''before'' (CallMethod b (0 < fn_length b) []) (getSettings b)])
   \<and> (proto_get (chain t) ''after'' = Some (Fn a) \<and> parametersSymbol a = None \<longrightarrow>
        register_after (chain t) =
          [RAfterEach ''after'' (CallMethod a (0 < fn_length a) []) (getSettings a)])
   \<and> (static_after t = Some (Fn sa) \<and> static_before t = Some (Fn sb)
       \<and> parametersSymbol sa = None \<longrightarrow>
        fst (register_static_after t) =
          [RAfterAll ''static after'' (CallStatic sa (0 < fn_length sa)) (getSettings sb)])"
  by (auto simp add: isAsync_def declareTestMethod_def applyTestFunc_def Let_def
      register_static_before_def register_before_def register_after_def
      register_static_after_def)

theorem async_by_declared_parameters_witness:
  "isAsync timed_after
   \<and> declareTestMethod timed_test =
       [RTest (Some ''two'') (CallMethod timed_test True [])
          (Some \<lparr>slow = None, timeout = Some 1000, retries = None, execution = None\<rparr>)]
   \<and> map (\<lambda>c. case c of RTest n (CallMethod f d args) s \<Rightarrow> (d, args) | _ \<Rightarrow> (False, []))
        (case declareTestMethod function_named_method of
           [RSuite n tests s] \<Rightarrow> tests | _ \<Rightarrow> [])
       = [(True, [''a'']), (True, [''b'']), (True, [''c''])]
   \<and> register_static_before retrying_hook_class =
       [RBeforeAll ''static before'' (CallStatic hooks_before False)
          (Some \<lparr>slow = None, timeout = Some 100, retries = None, execution = None\<rparr>)]
   \<and> register_before (chain retrying_hook_class) =
       [RBeforeEach ''before'' (CallMethod retrying_before False [])
          (Some \<lparr>slow = None, timeout = None, retries = Some 3, execution = Some Skip\<rparr>)]
   \<and> register_after (chain retrying_hook_class) =
       [RAfterEach ''after'' (CallMethod timed_after True [])
          (Some \<lparr>slow = None, timeout = Some 50, retries = None, execution = None\<rparr>)]
   \<and> fst (register_static_after retrying_hook_class) =
       [RAfterAll ''static after'' (CallStatic hooks_after False)
          (Some \<lparr>slow = None, timeout = Some 100, retries = None, execution = None\<rparr>)]"
proof -
  have 1: "parametersSymbol timed_test = None"
    "parametersSymbol function_named_method = Some three_sets"
    "parametersSymbol hooks_before = None" "parametersSymbol retrying_before = None"
    "parametersSymbol timed_after = None" "parametersSymbol hooks_after = None"
    by (simp_all add: example_defs decorator_defs)
  have 2: "static_before retrying_hook_class = Some (Fn hooks_before)"
    "static_after retrying_hook_class = Some (Fn hooks_after)"
    "proto_get (chain retrying_hook_class) ''before'' = Some (Fn retrying_before)"
    "proto_get (chain retrying_hook_class) ''after'' = Some (Fn timed_after)"
    by (simp_all add: retrying_hook_class_def example_constructor_def)
  have 3: "fn_length timed_test = 1" "fn_length function_named_method = 2"
    "fn_length hooks_before = 0" "fn_length retrying_before = 0" "fn_length timed_after = 1"
    "fn_length hooks_after = 0" "nameSymbol timed_test = Some ''two''"
    "getSettings timed_test =
       Some \<lparr>slow = None, timeout = Some 1000, retries = None, execution = None\<rparr>"
    "getSettings hooks_before =
       Some \<lparr>slow = None, timeout = Some 100, retries = None, execution = None\<rparr>"
    "getSettings retrying_before =
       Some \<lparr>slow = None, timeout = None, retries = Some 3, execution = Some Skip\<rparr>"
    "getSettings timed_after =
       Some \<lparr>slow = None, timeout = Some 50, retries = None, execution = None\<rparr>"
    by (simp_all add: example_defs decorator_defs getSettings_def)
  from async_by_declared_parameters
         [of timed_after timed_test function_named_method three_sets
             retrying_hook_class hooks_before retrying_before timed_after hooks_after]
  show ?thesis
    by (simp add: 1 2 3 three_sets_def)
qed


section \<open>Overridden test methods\<close>

text \<open>
  C9, as stated, on a suite \<open>ConcreteTest\<close> that extends \<open>AbstractTestBase\<close> and
  overrides its test method \<open>inherited\<close> without decorating the override: the base
  method carries the test name, and the registration of the suite issues no
  \<^verbatim>\<open>runner.test\<close> call at all.
\<close>

theorem undecorated_override_registers_nothing:
  "truthy (nameSymbol base_version)
   \<and> suiteCallbackFromClass undecorated_override_class =
       ([RBeforeEach ''setup instance'' SetupInstance None,
         RAfterEach ''teardown instance'' TeardownInstance None],
        None)"
  by (simp add: example_defs decorator_defs order_defs callback_defs)

text \<open>
  C9, amended. Let the suite \<open>S\<close> extend \<open>B\<close>, with no class marked as a suite
  above \<open>S\<close>, and let no read of the callback throw (the static \<^verbatim>\<open>before\<close> is not a
  getter that throws on the class, and no property of the prototypes of the chain is a
  getter that throws on the prototype); let \<open>B\<close> declare a method that carries test-name metadata under a key
  that is not the name of a member of \<^verbatim>\<open>Object.prototype\<close>, and let \<open>S\<close> override it
  with a method that itself carries a non-empty test name and has no parameter sets.
  Then the walk succeeds and collects one entry for the key, which holds the method of
  \<open>S\<close>; its registration is one \<^verbatim>\<open>runner.test\<close> call, under the display name of the
  override, whose callback calls the method of \<open>S\<close>, and this call is among the calls
  of the registration callback.
\<close>

theorem override_registered_once:
  assumes "chain t = S # B # rest"
      and "\<not> list_ex suiteSymbol (B # rest)"
      and "map_of (members B) key = Some (Fn b)" and "truthy (nameSymbol b)"
      and "map_of (members S) key = Some (Fn s)" and "truthy (nameSymbol s)"
      and "parametersSymbol s = None"
      and "\<not> List.member object_prototype_names key"
      and "static_before t \<noteq> Some Throws"
      and "no_throwing_getter (chain t)"
  shows "(\<exists>c. collect_walk (chain t) (chain t) [] = Inr c
              \<and> filter (\<lambda>e. fst e = key) (property_order c) = [(key, s)])
         \<and> declareTestMethod s =
             [RTest (nameSymbol s) (CallMethod s (isAsync s) []) (getSettings s)]
         \<and> RTest (nameSymbol s) (CallMethod s (isAsync s) []) (getSettings s)
             \<in> set (fst (suiteCallbackFromClass t))"
proof -
  let ?P = "chain t"
  let ?c = "walk_levels ?P ?P []"
  have a: "\<not> list_ex suiteSymbol (tl ?P)" using assms(1,2) by simp
  have g: "proto_get ?P k \<noteq> Some Throws" for k by (rule proto_get_safe [OF assms(10)])
  have w: "collect_walk ?P ?P [] = Inr ?c" by (rule collect_walk_no_suite [OF g a])
  have "proto_get ?P key = Some (Fn s)" using assms(1,5) by simp
  then have e: "collect_entry ?P key = Some (key, s)"
    using assms(6,8) by (simp add: collect_entry_def)
  have l: "S \<in> set ?P" using assms(1) by simp
  have k: "key \<in> set (getOwnPropertyNames S)" by (rule own_key_listed [OF assms(5)])
  from walk_levels_entry [OF l k e]
  have m: "(key, s) \<in> set ?c" and f: "filter (\<lambda>x. fst x = key) ?c = [(key, s)]"
    by simp_all
  have 1: "filter (\<lambda>e. fst e = key) (property_order ?c) = [(key, s)]"
    by (simp add: property_order_filter f property_order_single)
  have 2: "declareTestMethod s =
             [RTest (nameSymbol s) (CallMethod s (isAsync s) []) (getSettings s)]"
    using assms(7) by (simp add: declareTestMethod_def applyTestFunc_def Let_def)
  have "RTest (nameSymbol s) (CallMethod s (isAsync s) []) (getSettings s) \<in> set (run_tests ?c)"
    using run_tests_member [OF m] 2 by simp
  then have 3: "RTest (nameSymbol s) (CallMethod s (isAsync s) []) (getSettings s)
                  \<in> set (fst (suiteCallbackFromClass t))"
    by (simp add: callback_without_suite_ancestor [OF assms(9,10) a])
  from w 1 2 3 show ?thesis by blast
qed

theorem override_registered_once_witness:
  "declareTestMethod decorated_override =
     [RTest (Some ''inherited'') (CallMethod decorated_override False []) None]
   \<and> RTest (Some ''inherited'') (CallMethod decorated_override False []) None
       \<in> set (fst (suiteCallbackFromClass decorated_override_class))
   \<and> fn_id decorated_override \<noteq> fn_id base_version"
proof -
  let ?S = "\<lparr>ctor_name = ''ConcreteTest'', suiteSymbol = True,
             members = [example_constructor, (''inherited'', Fn decorated_override)]\<rparr>"
  have 1: "chain decorated_override_class = ?S # base_level # []"
    by (simp add: decorated_override_class_def)
  have 2: "\<not> list_ex suiteSymbol (base_level # [])" by (simp add: base_level_def)
  have 3: "map_of (members base_level) ''inherited'' = Some (Fn base_version)"
    by (simp add: base_level_def example_constructor_def)
  have 4: "truthy (nameSymbol base_version)"
    by (simp add: base_version_def bare_test_def decorator_defs)
  have 5: "map_of (members ?S) ''inherited'' = Some (Fn decorated_override)"
    by (simp add: example_constructor_def)
  have 6: "truthy (nameSymbol decorated_override)"
    by (simp add: decorated_override_def bare_test_def decorator_defs)
  have 7: "parametersSymbol decorated_override = None"
    by (simp add: decorated_override_def bare_test_def decorator_defs)
  have 8: "\<not> List.member object_prototype_names ''inherited''"
    by (simp add: object_prototype_names_def)
  have f: "nameSymbol decorated_override = Some ''inherited''"
    "isAsync decorated_override = False" "getSettings decorated_override = None"
    "fn_id decorated_override \<noteq> fn_id base_version"
    by (simp_all add: decorated_override_def base_version_def bare_test_def decorator_defs
        isAsync_def getSettings_def)
  have 9: "static_before decorated_override_class \<noteq> Some Throws"
    by (simp add: decorated_override_class_def)
  have 10: "no_throwing_getter (chain decorated_override_class)"
    by (simp add: no_throwing_getter_def decorated_override_class_def base_level_def
        example_constructor_def)
  from override_registered_once [OF 1 2 3 4 5 6 7 8 9 10] show ?thesis
    by (simp add: f)
qed

section \<open>Conditional execution modifiers\<close>

text \<open>
  C10. The execution modifier called with \<^verbatim>\<open>false\<close> returns a decorator that leaves the
  method as it is, so an unset execution mode stays unset; called with \<^verbatim>\<open>true\<close> it
  returns the modifier itself, which sets the execution mode of the method to the mode of
  the modifier, as the bare modifier does. The mode \<open>e\<close> is any of only, pending and
  skip.
\<close>

theorem conditional_execution_modifier:
  "modifier_on_condition e (Some False) key f = f
   \<and> executionSymbol (modifier_on_condition e (Some False) key (plain_method i n)) = None
   \<and> executionSymbol (modifier_on_condition e (Some True) key f) = Some e
   \<and> executionSymbol (modifier_on_method e key f) = Some e"
  by (simp add: modifier_on_condition_def modifier_on_method_def plain_method_def)

end
